theory Spec2Isabelle
  imports Complex_Main "HOL-Library.Multiset"
begin

section \<open>JavaScript strings\<close>

text \<open>
  A JavaScript string is modelled as a \<^typ>\<open>string\<close>, one \<^typ>\<open>char\<close> for each code unit
  below 256. \<open>String.prototype.trim\<close> removes white space and line terminators from both
  ends; below 256 these are TAB, LF, VT, FF, CR, SPACE and NBSP.
\<close>

definition is_ws :: "char \<Rightarrow> bool" where
  "is_ws c = (c \<in> {CHR 0x09, CHR 0x0A, CHR 0x0B, CHR 0x0C, CHR 0x0D, CHR 0x20, CHR 0xA0})"

definition js_trim :: "string \<Rightarrow> string" where
  "js_trim s = rev (dropWhile is_ws (rev (dropWhile is_ws s)))"

text \<open>\<open>s.startsWith(p)\<close> and \<open>s.substring(n)\<close> (for \<open>n\<close> not negative).\<close>

definition startsWith :: "string \<Rightarrow> string \<Rightarrow> bool" where
  "startsWith s p = (take (length p) s = p)"

definition substring :: "string \<Rightarrow> nat \<Rightarrow> string" where
  "substring s n = drop n s"

text \<open>
  \<open>s.split(',')\<close>: the pieces between the separators, empty pieces included; the empty
  string splits into one empty piece.
\<close>

fun split_on :: "char \<Rightarrow> string \<Rightarrow> string list" where
  "split_on c [] = [[]]"
| "split_on c (x # xs) =
     (if x = c then [] # split_on c xs
      else (case split_on c xs of
              [] \<Rightarrow> [[x]]
            | w # ws \<Rightarrow> (x # w) # ws))"

text \<open>An exception \<open>new Error(message)\<close> thrown by the code.\<close>

datatype js_error = Error string

section \<open>Tokens (src/utils/jwt.ts)\<close>

record JWTPayload =
  payload_id :: string
  payload_email :: string
  payload_name :: string


text \<open>
  The \<open>jsonwebtoken\<close> library is outside the repository. Its tokens are modelled
  symbolically. A token string is one of three things: a string that the library refuses
  as no token (\<open>Malformed\<close>); a string on which decoding raises an exception that is not
  the library's own, such as a header of type JWT with a payload that is not JSON
  (\<open>Unparsable\<close>); or claims with a signature that verifies under exactly one secret, the
  one it was signed with (\<open>Signed\<close>; a tampered signature is a signature under some other
  secret). Times are seconds since the epoch.
\<close>

record jwt_claims =
  claims_payload :: JWTPayload
  claims_iss :: "string option"
  claims_iat :: int
  claims_nbf :: "int option"
  claims_exp :: "int option"

datatype token = Malformed string | Unparsable string | Signed jwt_claims string

text \<open>
  The errors of \<open>jwt.verify\<close>. \<open>TokenExpiredError\<close> and \<open>NotBeforeError\<close> are subclasses of
  \<open>JsonWebTokenError\<close>; \<open>OtherError\<close> is any exception that is not.
\<close>

datatype jwt_error =
    TokenExpiredError
  | NotBeforeError
  | JsonWebTokenError string
  | OtherError

definition instanceof_TokenExpiredError :: "jwt_error \<Rightarrow> bool" where
  "instanceof_TokenExpiredError e = (e = TokenExpiredError)"

definition instanceof_JsonWebTokenError :: "jwt_error \<Rightarrow> bool" where
  "instanceof_JsonWebTokenError e = (e \<noteq> OtherError)"



text \<open>
  \<open>jwt.verify(token, secret, {issuer})\<close> at time \<open>now\<close>: the library checks, in this order,
  that the token decodes, the signature, \<open>nbf\<close> (the token is active from then on), \<open>exp\<close>
  (it is expired from then on), and the issuer.
\<close>

definition active :: "int \<Rightarrow> jwt_claims \<Rightarrow> bool" where
  "active now c = (case claims_nbf c of None \<Rightarrow> True | Some t \<Rightarrow> t \<le> now)"

definition expired :: "int \<Rightarrow> jwt_claims \<Rightarrow> bool" where
  "expired now c = (case claims_exp c of None \<Rightarrow> False | Some t \<Rightarrow> t \<le> now)"

definition jwt_verify :: "int \<Rightarrow> token \<Rightarrow> string \<Rightarrow> string \<Rightarrow> jwt_error + jwt_claims" where
  "jwt_verify now tok secret issuer =
     (case tok of
        Malformed s \<Rightarrow> Inl (JsonWebTokenError ''jwt malformed'')
      | Unparsable s \<Rightarrow> Inl OtherError
      | Signed c k \<Rightarrow>
          if k \<noteq> secret then Inl (JsonWebTokenError ''invalid signature'')
          else if \<not> active now c then Inl NotBeforeError
          else if expired now c then Inl TokenExpiredError
          else if claims_iss c \<noteq> Some issuer then Inl (JsonWebTokenError ''jwt issuer invalid'')
          else Inr c)"

text \<open>
  \<open>process.env\<close>, as far as \<open>JWTUtil\<close> reads it. The class reads both variables once, when
  it is loaded, so signing and verifying see the same values.
\<close>

record env =
  JWT_SECRET :: "string option"
  JWT_EXPIRE :: "string option"

text \<open>\<open>process.env.X || fallback\<close>: an unset variable and an empty one both fall back.\<close>

definition SECRET :: "env \<Rightarrow> string" where
  "SECRET e = (case JWT_SECRET e of
                 None \<Rightarrow> ''fallback-secret-key''
               | Some s \<Rightarrow> if s = [] then ''fallback-secret-key'' else s)"



definition verifyToken :: "env \<Rightarrow> int \<Rightarrow> token \<Rightarrow> js_error + JWTPayload" where
  "verifyToken e now tok =
     (case jwt_verify now tok (SECRET e) ''notes-api'' of
        Inr c \<Rightarrow> Inr (claims_payload c)
      | Inl err \<Rightarrow>
          if instanceof_TokenExpiredError err then Inl (Error ''Token has expired'')
          else if instanceof_JsonWebTokenError err then Inl (Error ''Invalid token'')
          else Inl (Error ''Token verification failed''))"


definition extractTokenFromHeader :: "string option \<Rightarrow> js_error + string" where
  "extractTokenFromHeader authHeader =
     (case authHeader of
        None \<Rightarrow> Inl (Error ''Authorization header is missing'')
      | Some h \<Rightarrow>
          if h = [] then Inl (Error ''Authorization header is missing'')
          else if \<not> startsWith h ''Bearer '' then
            Inl (Error ''Invalid authorization header format'')
          else
            let token = js_trim (substring h 7)
            in if token = [] then Inl (Error ''Token is missing'') else Inr token)"

section \<open>Notes (models/Note.ts)\<close>

text \<open>
  An \<open>ObjectId\<close> is identified with the string \<open>toString()\<close> gives for it (24 hexadecimal
  digits in lower case); the ids in the store and in a token's payload are such strings. An
  id in a URL is compared with them as it is spelled: the store would also take the same
  digits in upper case for the same id, which the model does not do. \<open>createdAt\<close> and
  \<open>updatedAt\<close> are instants, in milliseconds.
\<close>

type_synonym ObjectId = string

record Note =
  note_id :: ObjectId
  title :: string
  content :: string
  author :: ObjectId
  tags :: "string list"
  isArchived :: bool
  createdAt :: int
  updatedAt :: int

text \<open>
  The collection is the list of its documents in the order in which they were inserted:
  \<open>save\<close> below puts a new document at the end. The store is taken to scan the documents
  in this order.
\<close>

type_synonym collection = "Note list"

text \<open>
  What the program needs of Mongoose and MongoDB and does not define itself:
  \<open>mongoose.Types.ObjectId.isValid\<close>, which also stands for "casts to an ObjectId", and
  the text search \<open>{$text: {$search: s}}\<close> over the text index on title and content.
\<close>

record driver =
  ObjectId_isValid :: "string \<Rightarrow> bool"
  text_search :: "string \<Rightarrow> Note \<Rightarrow> bool"

text \<open>
  A path of a document: a field, or an element of an array field (\<open>tags.0\<close>). A Mongoose
  validation error holds the paths that failed, each with the schema's message; the model
  keeps them as a set, in no order.
\<close>

datatype path = Path string | Element string nat

datatype store_error =
    ValidationError "(path \<times> string) set"
  | CastError string

text \<open>
  The validators of \<open>NoteSchema\<close>. The schema trims the title and every tag when they are
  set, before it validates them.
\<close>

definition validate_title :: "string \<Rightarrow> (path \<times> string) list" where
  "validate_title t =
     (if t = [] then [(Path ''title'', ''Title is required'')]
      else if 200 < length t then [(Path ''title'', ''Title cannot exceed 200 characters'')]
      else [])"

definition validate_content :: "string \<Rightarrow> (path \<times> string) list" where
  "validate_content c =
     (if c = [] then [(Path ''content'', ''Content is required'')]
      else if 10000 < length c then
        [(Path ''content'', ''Content cannot exceed 10000 characters'')]
      else [])"

definition validate_tags :: "string list \<Rightarrow> (path \<times> string) list" where
  "validate_tags ts =
     map (\<lambda>(i, t). (Element ''tags'' i, ''Tag cannot exceed 30 characters''))
       (filter (\<lambda>(i, t). 30 < length t) (enumerate 0 ts))"

text \<open>
  The route schemas, which Fastify checks on the request before the handler runs and
  answers with 400 itself: the place of the first value that the schema refuses, if any.
  The types of the values are those of the records; what is left to check is the lengths
  and the ranges.
\<close>

datatype instance_path = Querystring string | Body string | BodyItem string nat

section \<open>The query of the listing (routes/notes.ts, GET /)\<close>

record NotesQuery =
  q_page :: "int option"
  q_limit :: "int option"
  q_search :: "string option"
  q_tags :: "string option"
  q_archived :: "bool option"

text \<open>
  \<open>getNotesSchema\<close>: \<open>page\<close> is at least 1 and \<open>limit\<close> is from 1 to 100, after the defaults
  1 and 10 are filled in.
\<close>

definition getNotesSchema :: "NotesQuery \<Rightarrow> instance_path option" where
  "getNotesSchema q =
     (let page = (case q_page q of None \<Rightarrow> 1 | Some p \<Rightarrow> p);
          limit = (case q_limit q of None \<Rightarrow> 10 | Some l \<Rightarrow> l)
      in if page < 1 then Some (Querystring ''page'')
         else if limit < 1 \<or> 100 < limit then Some (Querystring ''limit'')
         else None)"

text \<open>
  The filter object \<open>{author, isArchived?, tags: {$in}?, $text: {$search}?}\<close>. A field that
  the handler does not set is \<open>None\<close>.
\<close>

record note_filter =
  filter_author :: ObjectId
  filter_isArchived :: "bool option"
  filter_tags_in :: "string list option"
  filter_text :: "string option"

definition tagArray :: "string \<Rightarrow> string list" where
  "tagArray ts = filter (\<lambda>tag. 0 < length tag) (map js_trim (split_on CHR '','' ts))"

text \<open>\<open>if (tags)\<close> and \<open>if (search)\<close> are false for a missing and for an empty string.\<close>

definition build_filter :: "ObjectId \<Rightarrow> NotesQuery \<Rightarrow> note_filter" where
  "build_filter authorId q =
     \<lparr>filter_author = authorId,
      filter_isArchived = q_archived q,
      filter_tags_in =
        (case q_tags q of
           None \<Rightarrow> None
         | Some ts \<Rightarrow>
             if ts = [] then None
             else if 0 < length (tagArray ts) then Some (tagArray ts) else None),
      filter_text =
        (case q_search q of
           None \<Rightarrow> None
         | Some s \<Rightarrow> if s = [] then None else Some s)\<rparr>"

text \<open>
  A document matches a filter when it meets every field that is set; \<open>{tags: {$in: a}}\<close>
  holds of a document whose array \<open>tags\<close> has an element that is in \<open>a\<close>.
\<close>

definition matches :: "driver \<Rightarrow> note_filter \<Rightarrow> Note \<Rightarrow> bool" where
  "matches d f n =
     (author n = filter_author f
      \<and> (case filter_isArchived f of None \<Rightarrow> True | Some b \<Rightarrow> isArchived n = b)
      \<and> (case filter_tags_in f of None \<Rightarrow> True | Some a \<Rightarrow> \<exists>t \<in> set (tags n). t \<in> set a)
      \<and> (case filter_text f of None \<Rightarrow> True | Some s \<Rightarrow> text_search d s n))"

text \<open>
  \<open>.sort({createdAt: -1})\<close>: the matching documents by \<open>createdAt\<close>, latest first. The
  query names no second key. The store's sort is taken to be stable (the spec requires a
  stable ordering of the store): documents with the same \<open>createdAt\<close> keep the order in
  which the store scanned them, which is the order of insertion.
\<close>

definition sort_createdAt_desc :: "Note list \<Rightarrow> Note list" where
  "sort_createdAt_desc ns = sort_key (\<lambda>n. - createdAt n) ns"

definition find_notes ::
  "driver \<Rightarrow> note_filter \<Rightarrow> int \<Rightarrow> int \<Rightarrow> collection \<Rightarrow> store_error + Note list" where
  "find_notes d f skip limit store =
     (if \<not> ObjectId_isValid d (filter_author f) then Inl (CastError ''author'')
      else Inr (take (nat limit) (drop (nat skip)
                  (sort_createdAt_desc (filter (matches d f) store)))))"

definition countDocuments :: "driver \<Rightarrow> note_filter \<Rightarrow> collection \<Rightarrow> store_error + nat" where
  "countDocuments d f store =
     (if \<not> ObjectId_isValid d (filter_author f) then Inl (CastError ''author'')
      else Inr (length (filter (matches d f) store)))"

section \<open>Replies\<close>

text \<open>The note as the handlers send it: every field but the author.\<close>

record note_view =
  view_id :: ObjectId
  view_title :: string
  view_content :: string
  view_tags :: "string list"
  view_isArchived :: bool
  view_createdAt :: int
  view_updatedAt :: int

definition view :: "Note \<Rightarrow> note_view" where
  "view n =
     \<lparr>view_id = note_id n, view_title = title n, view_content = content n,
      view_tags = tags n, view_isArchived = isArchived n,
      view_createdAt = createdAt n, view_updatedAt = updatedAt n\<rparr>"

record pagination =
  currentPage :: int
  totalPages :: int
  totalNotes :: nat
  hasNext :: bool
  hasPrev :: bool

text \<open>
  The \<open>message\<close> of a reply is a literal of the handler, or the \<open>message\<close> of a Mongoose
  validation error, which lists the paths that failed with the schema's messages.
  \<open>SchemaErrorReply\<close> is Fastify's own reply to a request that the route schema refuses.
\<close>

datatype message = Text string | ValidationMessage "(path \<times> string) set"

datatype reply =
    NoteReply nat "string option" note_view
  | NotesReply nat "note_view list" pagination
  | MessageReply nat string
  | ErrorReply nat string message
  | SchemaErrorReply nat instance_path

text \<open>
  GET /, the schema and then the handler. In the code \<open>page\<close> and \<open>limit\<close> are
  floating-point numbers, and the schema asks for a number, not for an integer. The model
  has the integers among them, with exact arithmetic: it agrees with the code as long as
  \<open>page\<close>, \<open>(page - 1) * limit\<close> and the number of matching notes are below \<open>2^53\<close>, where
  the floating-point numbers hold every integer and \<open>Math.ceil(totalNotes / limit)\<close> is the
  ceiling of the quotient. A \<open>page\<close> or \<open>limit\<close> that is not an integer has no counterpart
  in the model.
\<close>

definition get_notes :: "driver \<Rightarrow> ObjectId \<Rightarrow> NotesQuery \<Rightarrow> collection \<Rightarrow> reply" where
  "get_notes d authorId q store =
     (case getNotesSchema q of
        Some p \<Rightarrow> SchemaErrorReply 400 p
      | None \<Rightarrow>
         (let page = (case q_page q of None \<Rightarrow> 1 | Some p \<Rightarrow> p);
              limit = (case q_limit q of None \<Rightarrow> 10 | Some l \<Rightarrow> l);
              skip = (page - 1) * limit;
              f = build_filter authorId q
          in case (find_notes d f skip limit store, countDocuments d f store) of
               (Inr notes, Inr n_total) \<Rightarrow>
                 (let pages = \<lceil>real n_total / real_of_int limit\<rceil>
                  in NotesReply 200 (map view notes)
                       \<lparr>currentPage = page, totalPages = pages, totalNotes = n_total,
                        hasNext = (page < pages), hasPrev = (1 < page)\<rparr>)
             | _ \<Rightarrow>
                 ErrorReply 500 ''Internal Server Error'' (Text ''Failed to retrieve notes'')))"

section \<open>Creating, reading, updating and deleting a note (routes/notes.ts)\<close>

text \<open>
  The request bodies. The route schemas declare the properties of \<open>CreateNoteBody\<close> and
  \<open>UpdateNoteBody\<close> and do not set \<open>additionalProperties: false\<close>, so a JSON body that
  carries further properties passes validation with them and reaches the handler as it is.
  Of these the model keeps \<open>author\<close>, which is a path of \<open>NoteSchema\<close>, and for an update
  the names of the other properties (\<open>ub_other\<close>). The model does nothing with the other
  properties but count them, which is what Mongoose does with a name that is inert: no
  path of the schema, no dotted path and no update operator. A body with a property that
  is not inert (\<open>$set\<close>, \<open>createdAt\<close>, \<open>tags.0\<close>) is beyond the model: Mongoose would cast and
  apply it.
\<close>

record CreateNoteBody =
  cb_title :: string
  cb_content :: string
  cb_tags :: "string list option"
  cb_author :: "string option"

record UpdateNoteBody =
  ub_title :: "string option"
  ub_content :: "string option"
  ub_tags :: "string list option"
  ub_isArchived :: "bool option"
  ub_author :: "string option"
  ub_other :: "string list"

definition inert_key :: "string \<Rightarrow> bool" where
  "inert_key k =
     (\<not> startsWith k ''$'' \<and> CHR ''.'' \<notin> set k
      \<and> k \<notin> set [''_id'', ''title'', ''content'', ''author'', ''tags'', ''isArchived'',
                    ''createdAt'', ''updatedAt'', ''__v''])"

text \<open>
  \<open>createNoteSchema\<close> and \<open>updateNoteSchema\<close>: at most 200 characters in the title, 10000 in
  the content and 30 in every tag, counted on the body as it was sent.
\<close>

definition tags_schema :: "string list \<Rightarrow> instance_path option" where
  "tags_schema ts =
     (case find (\<lambda>(i, t). 30 < length t) (enumerate 0 ts) of
        None \<Rightarrow> None
      | Some (i, t) \<Rightarrow> Some (BodyItem ''tags'' i))"

definition createNoteSchema :: "CreateNoteBody \<Rightarrow> instance_path option" where
  "createNoteSchema b =
     (if 200 < length (cb_title b) then Some (Body ''title'')
      else if 10000 < length (cb_content b) then Some (Body ''content'')
      else case cb_tags b of None \<Rightarrow> None | Some ts \<Rightarrow> tags_schema ts)"

definition updateNoteSchema :: "UpdateNoteBody \<Rightarrow> instance_path option" where
  "updateNoteSchema u =
     (if (case ub_title u of None \<Rightarrow> False | Some t \<Rightarrow> 200 < length t) then Some (Body ''title'')
      else if (case ub_content u of None \<Rightarrow> False | Some c \<Rightarrow> 10000 < length c)
        then Some (Body ''content'')
      else case ub_tags u of None \<Rightarrow> None | Some ts \<Rightarrow> tags_schema ts)"

definition Object_keys_length :: "UpdateNoteBody \<Rightarrow> nat" where
  "Object_keys_length u =
     (if ub_title u = None then 0 else 1) + (if ub_content u = None then 0 else 1)
     + (if ub_tags u = None then 0 else 1) + (if ub_isArchived u = None then 0 else 1)
     + (if ub_author u = None then 0 else 1) + length (ub_other u)"

text \<open>\<open>tags.filter(tag => tag.trim().length > 0)\<close>\<close>

definition filter_tags :: "string list \<Rightarrow> string list" where
  "filter_tags ts = filter (\<lambda>tag. 0 < length (js_trim tag)) ts"

text \<open>
  \<open>new Note({title, content, author, tags})\<close> followed by \<open>save()\<close>: the schema's setters
  trim the title and the tags, \<open>isArchived\<close> defaults to false, the validators run, and the
  driver gives the document its id \<open>new_id\<close> and both timestamps.
\<close>

definition save ::
  "driver \<Rightarrow> ObjectId \<Rightarrow> int \<Rightarrow> string \<Rightarrow> string \<Rightarrow> string \<Rightarrow> string list \<Rightarrow> collection
     \<Rightarrow> store_error + (Note \<times> collection)" where
  "save d new_id now t c a ts store =
     (let doc = \<lparr>note_id = new_id, title = js_trim t, content = c, author = a,
                 tags = map js_trim ts, isArchived = False, createdAt = now, updatedAt = now\<rparr>;
          errs = validate_title (title doc) @ validate_content (content doc)
                 @ (if ObjectId_isValid d a then []
                    else [(Path ''author'', ''Cast to ObjectId failed'')])
                 @ validate_tags (tags doc)
      in if errs \<noteq> [] then Inl (ValidationError (set errs)) else Inr (doc, store @ [doc]))"

definition post_note ::
  "driver \<Rightarrow> ObjectId \<Rightarrow> int \<Rightarrow> ObjectId \<Rightarrow> CreateNoteBody \<Rightarrow> collection \<Rightarrow> reply \<times> collection" where
  "post_note d new_id now authorId body store =
     (case createNoteSchema body of
        Some p \<Rightarrow> (SchemaErrorReply 400 p, store)
      | None \<Rightarrow>
         (let ts = (case cb_tags body of None \<Rightarrow> [] | Some l \<Rightarrow> l)
          in case save d new_id now (cb_title body) (cb_content body) authorId (filter_tags ts)
                    store of
               Inr (n, store') \<Rightarrow>
                 (NoteReply 201 (Some ''Note created successfully'') (view n), store')
             | Inl (ValidationError errs) \<Rightarrow>
                 (ErrorReply 400 ''Validation Error'' (ValidationMessage errs), store)
             | Inl (CastError p) \<Rightarrow>
                 (ErrorReply 500 ''Internal Server Error'' (Text ''Failed to create note''),
                  store)))"

text \<open>The filter \<open>{_id: id, author: authorId}\<close> of the three routes on one note.\<close>

definition id_and_author :: "ObjectId \<Rightarrow> ObjectId \<Rightarrow> Note \<Rightarrow> bool" where
  "id_and_author i a n = (note_id n = i \<and> author n = a)"

definition findOne :: "driver \<Rightarrow> ObjectId \<Rightarrow> ObjectId \<Rightarrow> collection \<Rightarrow> store_error + Note option" where
  "findOne d i a store =
     (if \<not> ObjectId_isValid d i then Inl (CastError ''_id'')
      else if \<not> ObjectId_isValid d a then Inl (CastError ''author'')
      else Inr (find (id_and_author i a) store))"

definition get_note :: "driver \<Rightarrow> ObjectId \<Rightarrow> string \<Rightarrow> collection \<Rightarrow> reply" where
  "get_note d authorId i store =
     (if \<not> ObjectId_isValid d i then ErrorReply 400 ''Bad Request'' (Text ''Invalid note ID format'')
      else case findOne d i authorId store of
             Inl e \<Rightarrow> ErrorReply 500 ''Internal Server Error'' (Text ''Failed to retrieve note'')
           | Inr None \<Rightarrow> ErrorReply 404 ''Not Found'' (Text ''Note not found'')
           | Inr (Some n) \<Rightarrow> NoteReply 200 None (view n))"

text \<open>
  \<open>findOneAndUpdate(filter, updates, {new: true, runValidators: true})\<close>: Mongoose casts the
  filter and the update, keeps of the update the paths of the schema, runs the validators
  of the paths that are set, and the store then sets those paths (and \<open>updatedAt\<close>) on the
  first document that matches the filter. It returns the document as updated, or null.
\<close>

definition update_validators :: "UpdateNoteBody \<Rightarrow> (path \<times> string) list" where
  "update_validators u =
     (case ub_title u of None \<Rightarrow> [] | Some t \<Rightarrow> validate_title (js_trim t))
     @ (case ub_content u of None \<Rightarrow> [] | Some c \<Rightarrow> validate_content c)
     @ (case ub_tags u of None \<Rightarrow> [] | Some ts \<Rightarrow> validate_tags (map js_trim ts))"

definition apply_update :: "int \<Rightarrow> UpdateNoteBody \<Rightarrow> Note \<Rightarrow> Note" where
  "apply_update now u n =
     n\<lparr>title := (case ub_title u of None \<Rightarrow> title n | Some t \<Rightarrow> js_trim t),
       content := (case ub_content u of None \<Rightarrow> content n | Some c \<Rightarrow> c),
       author := (case ub_author u of None \<Rightarrow> author n | Some a \<Rightarrow> a),
       tags := (case ub_tags u of None \<Rightarrow> tags n | Some ts \<Rightarrow> map js_trim ts),
       isArchived := (case ub_isArchived u of None \<Rightarrow> isArchived n | Some b \<Rightarrow> b),
       updatedAt := now\<rparr>"

fun update_first :: "('a \<Rightarrow> bool) \<Rightarrow> ('a \<Rightarrow> 'a) \<Rightarrow> 'a list \<Rightarrow> 'a list" where
  "update_first P f [] = []"
| "update_first P f (x # xs) = (if P x then f x # xs else x # update_first P f xs)"

fun remove_first :: "('a \<Rightarrow> bool) \<Rightarrow> 'a list \<Rightarrow> 'a list" where
  "remove_first P [] = []"
| "remove_first P (x # xs) = (if P x then xs else x # remove_first P xs)"

text \<open>What casting and validating the update finds wrong with it, if anything.\<close>

definition cast_update :: "driver \<Rightarrow> UpdateNoteBody \<Rightarrow> store_error option" where
  "cast_update d u =
     (if (case ub_author u of None \<Rightarrow> False | Some x \<Rightarrow> \<not> ObjectId_isValid d x)
        then Some (CastError ''author'')
      else if update_validators u \<noteq> [] then
        Some (ValidationError (set (update_validators u)))
      else None)"

definition findOneAndUpdate ::
  "driver \<Rightarrow> int \<Rightarrow> ObjectId \<Rightarrow> ObjectId \<Rightarrow> UpdateNoteBody \<Rightarrow> collection
     \<Rightarrow> store_error + (Note option \<times> collection)" where
  "findOneAndUpdate d now i a u store =
     (if \<not> ObjectId_isValid d i then Inl (CastError ''_id'')
      else if \<not> ObjectId_isValid d a then Inl (CastError ''author'')
      else case cast_update d u of
             Some e \<Rightarrow> Inl e
           | None \<Rightarrow>
               Inr (map_option (apply_update now u) (find (id_and_author i a) store),
                    update_first (id_and_author i a) (apply_update now u) store))"

text \<open>\<open>if (updates.tags) updates.tags = updates.tags.filter(tag => tag.trim().length > 0)\<close>\<close>

definition filter_update_tags :: "UpdateNoteBody \<Rightarrow> UpdateNoteBody" where
  "filter_update_tags u = u\<lparr>ub_tags := map_option filter_tags (ub_tags u)\<rparr>"

definition put_note ::
  "driver \<Rightarrow> int \<Rightarrow> ObjectId \<Rightarrow> string \<Rightarrow> UpdateNoteBody \<Rightarrow> collection \<Rightarrow> reply \<times> collection" where
  "put_note d now authorId i updates store =
     (case updateNoteSchema updates of
        Some p \<Rightarrow> (SchemaErrorReply 400 p, store)
      | None \<Rightarrow>
         if \<not> ObjectId_isValid d i then
           (ErrorReply 400 ''Bad Request'' (Text ''Invalid note ID format''), store)
         else if Object_keys_length updates = 0 then
           (ErrorReply 400 ''Bad Request'' (Text ''No updates provided''), store)
         else
           (case findOneAndUpdate d now i authorId (filter_update_tags updates) store of
              Inr (Some n, store') \<Rightarrow>
                (NoteReply 200 (Some ''Note updated successfully'') (view n), store')
            | Inr (None, store') \<Rightarrow>
                (ErrorReply 404 ''Not Found'' (Text ''Note not found''), store')
            | Inl (ValidationError errs) \<Rightarrow>
                (ErrorReply 400 ''Validation Error'' (ValidationMessage errs), store)
            | Inl (CastError p) \<Rightarrow>
                (ErrorReply 500 ''Internal Server Error'' (Text ''Failed to update note''),
                 store)))"

definition findOneAndDelete ::
  "driver \<Rightarrow> ObjectId \<Rightarrow> ObjectId \<Rightarrow> collection \<Rightarrow> store_error + (Note option \<times> collection)" where
  "findOneAndDelete d i a store =
     (if \<not> ObjectId_isValid d i then Inl (CastError ''_id'')
      else if \<not> ObjectId_isValid d a then Inl (CastError ''author'')
      else Inr (find (id_and_author i a) store, remove_first (id_and_author i a) store))"

definition delete_note ::
  "driver \<Rightarrow> ObjectId \<Rightarrow> string \<Rightarrow> collection \<Rightarrow> reply \<times> collection" where
  "delete_note d authorId i store =
     (if \<not> ObjectId_isValid d i then
        (ErrorReply 400 ''Bad Request'' (Text ''Invalid note ID format''), store)
      else case findOneAndDelete d i authorId store of
             Inr (Some n, store') \<Rightarrow> (MessageReply 200 ''Note deleted successfully'', store')
           | Inr (None, store') \<Rightarrow> (ErrorReply 404 ''Not Found'' (Text ''Note not found''), store')
           | Inl e \<Rightarrow>
               (ErrorReply 500 ''Internal Server Error'' (Text ''Failed to delete note''), store))"

text \<open>
  The routes of \<open>noteRoutes\<close> for a request that \<open>authMiddleware\<close> lets through: \<open>authorId\<close>
  is \<open>request.user.id\<close>, the id in the payload of the verified token. A request with its
  reply and the collection after it.
\<close>

datatype request =
    POST CreateNoteBody
  | GET_list NotesQuery
  | GET string
  | PUT string UpdateNoteBody
  | DELETE string

fun noteRoutes ::
  "driver \<Rightarrow> ObjectId \<Rightarrow> int \<Rightarrow> ObjectId \<Rightarrow> request \<Rightarrow> collection \<Rightarrow> reply \<times> collection" where
  "noteRoutes d new_id now authorId (POST body) store = post_note d new_id now authorId body store"
| "noteRoutes d new_id now authorId (GET_list q) store = (get_notes d authorId q store, store)"
| "noteRoutes d new_id now authorId (GET i) store = (get_note d authorId i store, store)"
| "noteRoutes d new_id now authorId (PUT i updates) store = put_note d now authorId i updates store"
| "noteRoutes d new_id now authorId (DELETE i) store = delete_note d authorId i store"

section \<open>Example data\<close>




definition env0 :: env where
  "env0 = \<lparr>JWT_SECRET = None, JWT_EXPIRE = None\<rparr>"


definition claims0 :: jwt_claims where
  "claims0 =
     \<lparr>claims_payload = \<lparr>payload_id = ''507f1f77bcf86cd799439011'',
                         payload_email = ''john@example.com'', payload_name = ''John Doe''\<rparr>,
      claims_iss = Some ''wrong-issuer'', claims_iat = 0, claims_nbf = None,
      claims_exp = Some 3600\<rparr>"

definition hex24 :: "string \<Rightarrow> bool" where
  "hex24 s = (length s = 24 \<and> list_all (\<lambda>c. c \<in> set ''0123456789abcdef'') s)"

definition driver0 :: driver where
  "driver0 = \<lparr>ObjectId_isValid = hex24, text_search = (\<lambda>s n. s = title n)\<rparr>"

definition alice :: ObjectId where
  "alice = ''aaaaaaaaaaaaaaaaaaaaaaaa''"

definition bob :: ObjectId where
  "bob = ''bbbbbbbbbbbbbbbbbbbbbbbb''"

definition id1 :: ObjectId where
  "id1 = ''000000000000000000000001''"

definition id2 :: ObjectId where
  "id2 = ''000000000000000000000002''"

definition id3 :: ObjectId where
  "id3 = ''000000000000000000000003''"

definition note1 :: Note where
  "note1 = \<lparr>note_id = id1, title = ''Shopping'', content = ''Milk'', author = alice,
            tags = [''home''], isArchived = False, createdAt = 1000, updatedAt = 1000\<rparr>"

definition note2 :: Note where
  "note2 = \<lparr>note_id = id2, title = ''Report'', content = ''Draft'', author = alice,
            tags = [''work''], isArchived = False, createdAt = 1000, updatedAt = 1000\<rparr>"

definition note3 :: Note where
  "note3 = \<lparr>note_id = id3, title = ''Plan'', content = ''Secret'', author = bob,
            tags = [''work''], isArchived = True, createdAt = 2000, updatedAt = 2000\<rparr>"

definition id4 :: ObjectId where
  "id4 = ''000000000000000000000004''"

definition note4 :: Note where
  "note4 = \<lparr>note_id = id4, title = ''Trip'', content = ''Tickets'', author = alice,
            tags = [''home'', ''urgent''], isArchived = False, createdAt = 3000, updatedAt = 3000\<rparr>"

definition query0 :: NotesQuery where
  "query0 = \<lparr>q_page = None, q_limit = None, q_search = None, q_tags = None, q_archived = None\<rparr>"

definition update0 :: UpdateNoteBody where
  "update0 = \<lparr>ub_title = None, ub_content = None, ub_tags = None, ub_isArchived = None,
              ub_author = None, ub_other = []\<rparr>"

text \<open>\<open>pieces.join(c)\<close>, the inverse of \<open>split\<close>.\<close>

fun join_with :: "char \<Rightarrow> string list \<Rightarrow> string" where
  "join_with c [] = []"
| "join_with c [p] = p"
| "join_with c (p # q # ps) = p @ c # join_with c (q # ps)"

section \<open>Extracting the token from the header\<close>

lemma js_trim_decomp:
  "\<exists>a b. s = a @ js_trim s @ b \<and> (\<forall>c \<in> set a. is_ws c) \<and> (\<forall>c \<in> set b. is_ws c)"
proof -
  define m where "m = dropWhile is_ws s"
  have s: "s = takeWhile is_ws s @ m"
    by (simp add: m_def)
  have "rev (rev m) = rev (takeWhile is_ws (rev m) @ dropWhile is_ws (rev m))"
    by (simp only: takeWhile_dropWhile_id)
  then have "m = rev (dropWhile is_ws (rev m)) @ rev (takeWhile is_ws (rev m))"
    by (simp only: rev_append rev_rev_ident)
  then have m: "m = js_trim s @ rev (takeWhile is_ws (rev m))"
    by (simp only: js_trim_def m_def)
  have a: "\<forall>c \<in> set (takeWhile is_ws s). is_ws c"
    by (auto dest: set_takeWhileD)
  have b: "\<forall>c \<in> set (rev (takeWhile is_ws (rev m))). is_ws c"
    by (auto dest: set_takeWhileD)
  from s m have "s = takeWhile is_ws s @ js_trim s @ rev (takeWhile is_ws (rev m))"
    by simp
  with a b show ?thesis by blast
qed

lemma js_trim_empty_iff: "js_trim s = [] \<longleftrightarrow> (\<forall>c \<in> set s. is_ws c)"
proof
  assume "js_trim s = []"
  with js_trim_decomp [of s] show "\<forall>c \<in> set s. is_ws c"
    by (metis Un_iff append_Nil set_append)
next
  assume "\<forall>c \<in> set s. is_ws c"
  then show "js_trim s = []" by (auto simp: js_trim_def dest: set_dropWhileD)
qed

lemma js_trim_ends:
  assumes "js_trim s \<noteq> []"
  shows "\<not> is_ws (hd (js_trim s)) \<and> \<not> is_ws (last (js_trim s))"
proof -
  define m where "m = dropWhile is_ws s"
  define r where "r = dropWhile is_ws (rev m)"
  have t: "js_trim s = rev r" by (simp add: js_trim_def m_def r_def)
  with assms have r: "r \<noteq> []" by simp
  then have "\<not> is_ws (hd r)" unfolding r_def by (rule hd_dropWhile)
  then have l: "\<not> is_ws (last (js_trim s))" using r by (simp add: t last_rev)
  from r have mne: "m \<noteq> []" by (auto simp: r_def)
  then have hm: "\<not> is_ws (hd m)" unfolding m_def by (rule hd_dropWhile)
  have "last r = last (rev m)"
    using r unfolding r_def
    by (metis append_Nil2 last_appendR takeWhile_dropWhile_id)
  then have "hd (js_trim s) = hd m" using r mne by (simp add: t hd_rev last_rev)
  with hm l show ?thesis by simp
qed

lemma startsWith_append: "startsWith (p @ r) p"
  by (simp add: startsWith_def)

text \<open>
  C8, as the code has it. \<open>extractTokenFromHeader\<close> fails with "Authorization header is
  missing" when the header is absent or is the empty string; with "Invalid authorization
  header format" when the header is not empty and does not start with "Bearer "; with
  "Token is missing" when all that follows "Bearer " is white space; and otherwise returns
  what follows "Bearer " without the white space around it: the rest is white space, the
  token, white space, and the token neither starts nor ends with white space.
\<close>

theorem extractTokenFromHeader_cases:
  "extractTokenFromHeader None = Inl (Error ''Authorization header is missing'')
   \<and> extractTokenFromHeader (Some []) = Inl (Error ''Authorization header is missing'')
   \<and> (h \<noteq> [] \<and> \<not> startsWith h ''Bearer '' \<longrightarrow>
        extractTokenFromHeader (Some h) = Inl (Error ''Invalid authorization header format''))
   \<and> ((\<forall>c \<in> set r. is_ws c) \<longrightarrow>
        extractTokenFromHeader (Some (''Bearer '' @ r)) = Inl (Error ''Token is missing''))
   \<and> (\<not> (\<forall>c \<in> set r. is_ws c) \<longrightarrow>
        (\<exists>a t b. r = a @ t @ b \<and> (\<forall>c \<in> set a. is_ws c) \<and> (\<forall>c \<in> set b. is_ws c)
           \<and> t \<noteq> [] \<and> \<not> is_ws (hd t) \<and> \<not> is_ws (last t)
           \<and> extractTokenFromHeader (Some (''Bearer '' @ r)) = Inr t))"
proof -
  have sub: "substring (''Bearer '' @ r) 7 = r"
    by (simp add: substring_def)
  have pre: "startsWith (''Bearer '' @ r) ''Bearer ''"
    by (rule startsWith_append)
  have c1: "extractTokenFromHeader None = Inl (Error ''Authorization header is missing'')"
    by (simp add: extractTokenFromHeader_def)
  have c2: "extractTokenFromHeader (Some []) = Inl (Error ''Authorization header is missing'')"
    by (simp add: extractTokenFromHeader_def)
  have c3: "h \<noteq> [] \<and> \<not> startsWith h ''Bearer '' \<longrightarrow>
        extractTokenFromHeader (Some h) = Inl (Error ''Invalid authorization header format'')"
    by (simp add: extractTokenFromHeader_def)
  have c4: "(\<forall>c \<in> set r. is_ws c) \<longrightarrow>
        extractTokenFromHeader (Some (''Bearer '' @ r)) = Inl (Error ''Token is missing'')"
    using pre sub js_trim_empty_iff [of r]
    by (simp add: extractTokenFromHeader_def del: append.simps)
  have c5: "\<not> (\<forall>c \<in> set r. is_ws c) \<longrightarrow>
        (\<exists>a t b. r = a @ t @ b \<and> (\<forall>c \<in> set a. is_ws c) \<and> (\<forall>c \<in> set b. is_ws c)
           \<and> t \<noteq> [] \<and> \<not> is_ws (hd t) \<and> \<not> is_ws (last t)
           \<and> extractTokenFromHeader (Some (''Bearer '' @ r)) = Inr t)"
  proof
    assume "\<not> (\<forall>c \<in> set r. is_ws c)"
    then have ne: "js_trim r \<noteq> []" by (simp add: js_trim_empty_iff)
    have ex: "extractTokenFromHeader (Some (''Bearer '' @ r)) = Inr (js_trim r)"
      using pre sub ne by (simp add: extractTokenFromHeader_def del: append.simps)
    from js_trim_decomp [of r] obtain a b where
      "r = a @ js_trim r @ b" "\<forall>c \<in> set a. is_ws c" "\<forall>c \<in> set b. is_ws c" by blast
    with ne js_trim_ends [OF ne] ex show "\<exists>a t b. r = a @ t @ b \<and> (\<forall>c \<in> set a. is_ws c) \<and> (\<forall>c \<in> set b. is_ws c)
           \<and> t \<noteq> [] \<and> \<not> is_ws (hd t) \<and> \<not> is_ws (last t)
           \<and> extractTokenFromHeader (Some (''Bearer '' @ r)) = Inr t" by blast
  qed
  from c1 c2 c3 c4 c5 show ?thesis by blast
qed

theorem extractTokenFromHeader_cases_witness:
  "extractTokenFromHeader (Some ''Basic abc'') = Inl (Error ''Invalid authorization header format'')
   \<and> extractTokenFromHeader (Some ''Bearer   '') = Inl (Error ''Token is missing'')"
  using extractTokenFromHeader_cases [of "''Basic abc''" "''  ''"]
  by (simp add: startsWith_def is_ws_def)

text \<open>
  The empty header does not start with "Bearer ", and the error is not the one for a
  header of the wrong format: the code takes the empty header for a missing one.
\<close>

theorem extractTokenFromHeader_empty_header:
  "\<not> startsWith '''' ''Bearer ''
   \<and> extractTokenFromHeader (Some '''') \<noteq> Inl (Error ''Invalid authorization header format'')"
  by (simp add: extractTokenFromHeader_def startsWith_def)


section \<open>Verifying a token\<close>

lemma verifyToken_Signed:
  "verifyToken e now (Signed c k) =
     (if k \<noteq> SECRET e \<or> \<not> active now c then Inl (Error ''Invalid token'')
      else if expired now c then Inl (Error ''Token has expired'')
      else if claims_iss c \<noteq> Some ''notes-api'' then Inl (Error ''Invalid token'')
      else Inr (claims_payload c))"
  by (simp add: verifyToken_def jwt_verify_def
      instanceof_TokenExpiredError_def instanceof_JsonWebTokenError_def)

lemma verifyToken_Malformed: "verifyToken e now (Malformed s) = Inl (Error ''Invalid token'')"
  by (simp add: verifyToken_def jwt_verify_def
      instanceof_TokenExpiredError_def instanceof_JsonWebTokenError_def)

lemma verifyToken_Unparsable:
  "verifyToken e now (Unparsable s) = Inl (Error ''Token verification failed'')"
  by (simp add: verifyToken_def jwt_verify_def
      instanceof_TokenExpiredError_def instanceof_JsonWebTokenError_def)

text \<open>
  C7, as the code has it. \<open>verifyToken\<close> succeeds exactly on a token that is signed with
  the secret, is active, has not expired and names the issuer \<open>notes-api\<close>, and then returns
  the payload of the token. It fails with one of three errors: "Token has expired" exactly
  on a token that is signed with the secret, is active and has expired; "Token
  verification failed" exactly on a token on which decoding raises an exception that is not
  the library's own; and "Invalid token" exactly on every other token that it rejects: one
  that is no token, one with a bad signature, one that is not yet active (also when it has
  expired), and one that is signed, active, not expired and names another issuer. A token
  with another issuer is rejected whatever its signature, and the code has no error of its
  own for it.
\<close>

theorem verifyToken_outcomes:
  "((\<exists>p. verifyToken e now tok = Inr p) \<longleftrightarrow>
      (\<exists>c. tok = Signed c (SECRET e) \<and> active now c \<and> \<not> expired now c
           \<and> claims_iss c = Some ''notes-api''))
   \<and> (verifyToken e now (Signed c k) = Inr p \<longrightarrow> p = claims_payload c)
   \<and> (verifyToken e now tok = Inl (Error ''Token has expired'') \<longleftrightarrow>
        (\<exists>c. tok = Signed c (SECRET e) \<and> active now c \<and> expired now c))
   \<and> (verifyToken e now tok = Inl (Error ''Token verification failed'') \<longleftrightarrow>
        (\<exists>s. tok = Unparsable s))
   \<and> (verifyToken e now tok = Inl (Error ''Invalid token'') \<longleftrightarrow>
        (\<exists>s. tok = Malformed s)
        \<or> (\<exists>c k. tok = Signed c k
              \<and> (k \<noteq> SECRET e \<or> \<not> active now c
                  \<or> (\<not> expired now c \<and> claims_iss c \<noteq> Some ''notes-api''))))
   \<and> (verifyToken e now tok = Inl err \<longrightarrow>
        err = Error ''Token has expired'' \<or> err = Error ''Invalid token''
        \<or> err = Error ''Token verification failed'')
   \<and> (claims_iss c \<noteq> Some ''notes-api'' \<longrightarrow> (\<exists>err. verifyToken e now (Signed c k) = Inl err))"
proof -
  have a: "(\<exists>p. verifyToken e now tok = Inr p) \<longleftrightarrow>
      (\<exists>c. tok = Signed c (SECRET e) \<and> active now c \<and> \<not> expired now c
           \<and> claims_iss c = Some ''notes-api'')"
    by (cases tok) (auto simp: verifyToken_Signed verifyToken_Malformed verifyToken_Unparsable)
  have b: "verifyToken e now (Signed c k) = Inr p \<longrightarrow> p = claims_payload c"
    by (auto simp: verifyToken_Signed split: if_splits)
  have c: "verifyToken e now tok = Inl (Error ''Token has expired'') \<longleftrightarrow>
        (\<exists>c. tok = Signed c (SECRET e) \<and> active now c \<and> expired now c)"
    by (cases tok) (auto simp: verifyToken_Signed verifyToken_Malformed verifyToken_Unparsable)
  have d: "verifyToken e now tok = Inl (Error ''Token verification failed'') \<longleftrightarrow>
        (\<exists>s. tok = Unparsable s)"
    by (cases tok) (auto simp: verifyToken_Signed verifyToken_Malformed verifyToken_Unparsable)
  have i: "verifyToken e now tok = Inl (Error ''Invalid token'') \<longleftrightarrow>
        (\<exists>s. tok = Malformed s)
        \<or> (\<exists>c k. tok = Signed c k
              \<and> (k \<noteq> SECRET e \<or> \<not> active now c
                  \<or> (\<not> expired now c \<and> claims_iss c \<noteq> Some ''notes-api'')))"
    by (cases tok) (auto simp: verifyToken_Signed verifyToken_Malformed verifyToken_Unparsable)
  have f: "verifyToken e now tok = Inl err \<longrightarrow>
        err = Error ''Token has expired'' \<or> err = Error ''Invalid token''
        \<or> err = Error ''Token verification failed''"
    by (cases tok)
      (auto simp: verifyToken_Signed verifyToken_Malformed verifyToken_Unparsable
        split: if_splits)
  have g: "claims_iss c \<noteq> Some ''notes-api'' \<longrightarrow> (\<exists>err. verifyToken e now (Signed c k) = Inl err)"
    by (simp add: verifyToken_Signed)
  from a b c d i f g show ?thesis by blast
qed

theorem verifyToken_outcomes_witness:
  "verifyToken env0 4000 (Signed (claims0\<lparr>claims_iss := Some ''notes-api''\<rparr>) ''fallback-secret-key'')
     = Inl (Error ''Token has expired'')
   \<and> verifyToken env0 4000
       (Signed (claims0\<lparr>claims_iss := Some ''notes-api'', claims_nbf := Some 5000\<rparr>)
          ''fallback-secret-key'')
     = Inl (Error ''Invalid token'')
   \<and> verifyToken env0 0 (Unparsable ''e30.x.y'') = Inl (Error ''Token verification failed'')
   \<and> (\<exists>p. verifyToken env0 0
             (Signed (claims0\<lparr>claims_iss := Some ''notes-api''\<rparr>) ''fallback-secret-key'') = Inr p)
   \<and> (\<exists>err. verifyToken env0 0 (Signed claims0 ''fallback-secret-key'') = Inl err)"
proof -
  have s: "SECRET env0 = ''fallback-secret-key''" by (simp add: SECRET_def env0_def)
  have w1: "verifyToken env0 4000
       (Signed (claims0\<lparr>claims_iss := Some ''notes-api''\<rparr>) ''fallback-secret-key'')
     = Inl (Error ''Token has expired'')"
    using verifyToken_outcomes [of env0 4000
        "Signed (claims0\<lparr>claims_iss := Some ''notes-api''\<rparr>) ''fallback-secret-key''"]
    by (simp add: s active_def expired_def claims0_def)
  have w2: "verifyToken env0 4000
       (Signed (claims0\<lparr>claims_iss := Some ''notes-api'', claims_nbf := Some 5000\<rparr>)
          ''fallback-secret-key'')
     = Inl (Error ''Invalid token'')"
    using verifyToken_outcomes [of env0 4000
        "Signed (claims0\<lparr>claims_iss := Some ''notes-api'', claims_nbf := Some 5000\<rparr>)
          ''fallback-secret-key''"]
    by (simp add: s active_def expired_def claims0_def)
  have w3: "verifyToken env0 0 (Unparsable ''e30.x.y'') = Inl (Error ''Token verification failed'')"
    using verifyToken_outcomes [of env0 0 "Unparsable ''e30.x.y''"] by simp
  have w4: "\<exists>p. verifyToken env0 0
             (Signed (claims0\<lparr>claims_iss := Some ''notes-api''\<rparr>) ''fallback-secret-key'') = Inr p"
    using verifyToken_outcomes [of env0 0
        "Signed (claims0\<lparr>claims_iss := Some ''notes-api''\<rparr>) ''fallback-secret-key''"]
    by (simp add: s active_def expired_def claims0_def)
  have w5: "\<exists>err. verifyToken env0 0 (Signed claims0 ''fallback-secret-key'') = Inl err"
    using verifyToken_outcomes [of env0 0 "Signed claims0 ''fallback-secret-key''" claims0
        "''fallback-secret-key''"]
    by (simp add: claims0_def)
  from w1 w2 w3 w4 w5 show ?thesis by blast
qed

text \<open>
  A token of another issuer under the right secret, a token of the right issuer under
  another secret and a string that is no token all fail with the same error: the code has
  no kind of its own for the wrong issuer.
\<close>

theorem verifyToken_issuer_not_distinguished:
  "verifyToken env0 0 (Signed claims0 ''fallback-secret-key'') = Inl (Error ''Invalid token'')
   \<and> verifyToken env0 0 (Signed (claims0\<lparr>claims_iss := Some ''notes-api''\<rparr>) ''wrong-secret-key'')
       = Inl (Error ''Invalid token'')
   \<and> verifyToken env0 0 (Malformed ''not-a-jwt-token'') = Inl (Error ''Invalid token'')"
  by (simp add: verifyToken_Signed verifyToken_Malformed env0_def claims0_def SECRET_def
      active_def expired_def)

section \<open>Signing and then verifying\<close>






section \<open>The listing\<close>

lemma split_on_not_Nil: "split_on c s \<noteq> []"
  by (induction s) (auto split: list.splits)

lemma split_on_pieces: "p \<in> set (split_on c s) \<Longrightarrow> c \<notin> set p"
  by (induction s arbitrary: p) (auto split: list.splits if_splits)

lemma join_split_on: "join_with c (split_on c s) = s"
proof (induction s)
  case Nil
  then show ?case by simp
next
  case (Cons x xs)
  show ?case
  proof (cases "x = c")
    case True
    with Cons split_on_not_Nil [of c xs] show ?thesis
      by (cases "split_on c xs") auto
  next
    case False
    with Cons split_on_not_Nil [of c xs] show ?thesis
      by (cases "split_on c xs"; cases "tl (split_on c xs)") auto
  qed
qed

lemma build_filter_author: "filter_author (build_filter authorId q) = authorId"
  by (simp add: build_filter_def)

lemma matches_author: "matches d f n \<Longrightarrow> author n = filter_author f"
  by (simp add: matches_def)

lemma set_page_subset: "set (take k (drop j (sort_createdAt_desc (filter P xs)))) \<subseteq> {x \<in> set xs. P x}"
proof -
  have "set (take k (drop j (sort_createdAt_desc (filter P xs)))) \<subseteq> set (sort_createdAt_desc (filter P xs))"
    by (meson set_take_subset set_drop_subset subset_trans)
  then show ?thesis by (auto simp: sort_createdAt_desc_def)
qed

lemma find_notes_sound:
  assumes "find_notes d f skip limit store = Inr ns" "n \<in> set ns"
  shows "n \<in> set store \<and> matches d f n"
proof -
  from assms(1) have "ns = take (nat limit) (drop (nat skip) (sort_createdAt_desc (filter (matches d f) store)))"
    by (auto simp: find_notes_def split: if_splits)
  with assms(2) set_page_subset [of "nat limit" "nat skip" "matches d f" store] show ?thesis
    by blast
qed

lemma get_notes_reply:
  assumes "get_notes d authorId q store = NotesReply c vs pg"
  shows "\<exists>ns. find_notes d (build_filter authorId q)
                 (((case q_page q of None \<Rightarrow> 1 | Some p \<Rightarrow> p) - 1) * (case q_limit q of None \<Rightarrow> 10 | Some l \<Rightarrow> l))
                 (case q_limit q of None \<Rightarrow> 10 | Some l \<Rightarrow> l) store = Inr ns \<and> vs = map view ns"
  using assms by (auto simp: get_notes_def Let_def split: sum.splits option.splits)

text \<open>
  C1. Whatever the query parameters, the filter that GET / sends to the store has the
  authenticated id as its author; a document that matches the filter has that author; and
  every note of the reply is the view of a document of the collection with that author.
\<close>

theorem listing_owner_scoped:
  "filter_author (build_filter authorId q) = authorId
   \<and> (matches d (build_filter authorId q) n \<longrightarrow> author n = authorId)
   \<and> (find_notes d (build_filter authorId q) skip limit store = Inr ns \<longrightarrow>
        (\<forall>n \<in> set ns. n \<in> set store \<and> author n = authorId))
   \<and> (get_notes d authorId q store = NotesReply c vs pg \<longrightarrow>
        (\<exists>ns. vs = map view ns \<and> (\<forall>n \<in> set ns. n \<in> set store \<and> author n = authorId)))"
proof -
  have a: "matches d (build_filter authorId q) n \<longrightarrow> author n = authorId" for n
    using matches_author [of d "build_filter authorId q" n] by (simp add: build_filter_author)
  have b: "find_notes d (build_filter authorId q) skip limit store = Inr ns \<longrightarrow>
        (\<forall>n \<in> set ns. n \<in> set store \<and> author n = authorId)" for skip limit ns
    using find_notes_sound [of d "build_filter authorId q" skip limit store ns] a by blast
  have c: "get_notes d authorId q store = NotesReply c vs pg \<longrightarrow>
        (\<exists>ns. vs = map view ns \<and> (\<forall>n \<in> set ns. n \<in> set store \<and> author n = authorId))"
  proof
    assume "get_notes d authorId q store = NotesReply c vs pg"
    from get_notes_reply [OF this] obtain ns sk li where
      "find_notes d (build_filter authorId q) sk li store = Inr ns" "vs = map view ns" by blast
    with b show "\<exists>ns. vs = map view ns \<and> (\<forall>n \<in> set ns. n \<in> set store \<and> author n = authorId)"
      by blast
  qed
  from a b c show ?thesis by (simp add: build_filter_author)
qed

theorem listing_owner_scoped_witness:
  "filter_author (build_filter alice query0) = alice
   \<and> find_notes driver0 (build_filter alice query0) 0 10 [note3, note1] = Inr [note1]
   \<and> author note1 = alice"
proof -
  have f: "find_notes driver0 (build_filter alice query0) 0 10 [note3, note1] = Inr [note1]"
    by (simp add: find_notes_def matches_def build_filter_def query0_def note1_def note3_def
        alice_def bob_def driver0_def hex24_def sort_createdAt_desc_def)
  from listing_owner_scoped [of alice query0 driver0 note1 0 10 "[note3, note1]" "[note1]"] f
  show ?thesis by simp
qed

lemma getNotesSchema_cong:
  "q_page q = q_page q' \<Longrightarrow> q_limit q = q_limit q' \<Longrightarrow> getNotesSchema q = getNotesSchema q'"
  by (simp add: getNotesSchema_def)

lemma getNotesSchema_None_iff:
  "getNotesSchema q = None \<longleftrightarrow>
     1 \<le> (case q_page q of None \<Rightarrow> 1 | Some p \<Rightarrow> p)
     \<and> 1 \<le> (case q_limit q of None \<Rightarrow> 10 | Some l \<Rightarrow> l)
     \<and> (case q_limit q of None \<Rightarrow> 10 | Some l \<Rightarrow> l) \<le> 100"
  by (auto simp: getNotesSchema_def Let_def)

lemma get_notes_valid:
  assumes "ObjectId_isValid d a" and "getNotesSchema q = None"
  shows "get_notes d a q store =
     (let page = (case q_page q of None \<Rightarrow> 1 | Some p \<Rightarrow> p);
          limit = (case q_limit q of None \<Rightarrow> 10 | Some l \<Rightarrow> l);
          m = filter (matches d (build_filter a q)) store
      in NotesReply 200
           (map view (take (nat limit) (drop (nat ((page - 1) * limit)) (sort_createdAt_desc m))))
           \<lparr>currentPage = page, totalPages = \<lceil>real (length m) / real_of_int limit\<rceil>,
            totalNotes = length m,
            hasNext = (page < \<lceil>real (length m) / real_of_int limit\<rceil>), hasPrev = (1 < page)\<rparr>)"
  using assms
  by (simp add: get_notes_def find_notes_def countDocuments_def build_filter_def Let_def)

lemma get_notes_first_page:
  assumes "ObjectId_isValid d a" and "q_page q = None" and "q_limit q = None"
  shows "\<exists>pg. get_notes d a q store =
            NotesReply 200
              (map view (take 10 (sort_createdAt_desc (filter (matches d (build_filter a q)) store))))
              pg
          \<and> totalNotes pg = length (filter (matches d (build_filter a q)) store)"
proof -
  have s: "getNotesSchema q = None" using assms(2,3) by (simp add: getNotesSchema_def)
  show ?thesis
    unfolding get_notes_valid [OF assms(1) s] Let_def using assms(2,3) by simp
qed

lemma hex24_alice: "hex24 alice"
  by (simp add: hex24_def alice_def)

lemma hex24_bob: "hex24 bob"
  by (simp add: hex24_def bob_def)

lemma valid_alice: "ObjectId_isValid driver0 alice"
  using hex24_alice by (simp add: driver0_def)

section \<open>The tag filter\<close>

lemma js_trim_unique:
  assumes "p = a @ t @ b" and "\<forall>c \<in> set a. is_ws c" and "\<forall>c \<in> set b. is_ws c"
    and "t \<noteq> []" and "\<not> is_ws (hd t)" and "\<not> is_ws (last t)"
  shows "js_trim p = t"
proof -
  have "dropWhile is_ws (t @ b) = t @ b"
    using assms(4,5) by (cases t) auto
  then have d: "dropWhile is_ws p = t @ b"
    using assms(1,2) by (simp add: dropWhile_append2)
  have "dropWhile is_ws (rev t) = rev t"
    using assms(4,6) by (cases "rev t") (auto simp: last_rev [symmetric] hd_rev)
  moreover have "dropWhile is_ws (rev b @ rev t) = dropWhile is_ws (rev t)"
    by (rule dropWhile_append2) (use assms(3) in auto)
  ultimately have "dropWhile is_ws (rev b @ rev t) = rev t" by simp
  with d show ?thesis by (simp add: js_trim_def)
qed

lemma mem_tagArray_iff:
  "t \<in> set (tagArray ts) \<longleftrightarrow>
     (\<exists>p \<in> set (split_on CHR '','' ts). \<exists>a b. p = a @ t @ b
        \<and> (\<forall>c \<in> set a. is_ws c) \<and> (\<forall>c \<in> set b. is_ws c)
        \<and> t \<noteq> [] \<and> \<not> is_ws (hd t) \<and> \<not> is_ws (last t))"
proof
  assume "t \<in> set (tagArray ts)"
  then obtain p where p: "p \<in> set (split_on CHR '','' ts)" and t: "t = js_trim p" and ne: "t \<noteq> []"
    by (auto simp: tagArray_def)
  from js_trim_decomp [of p] obtain a b where
    "p = a @ js_trim p @ b" "\<forall>c \<in> set a. is_ws c" "\<forall>c \<in> set b. is_ws c" by blast
  with p t ne js_trim_ends [of p] show "\<exists>p \<in> set (split_on CHR '','' ts). \<exists>a b. p = a @ t @ b
        \<and> (\<forall>c \<in> set a. is_ws c) \<and> (\<forall>c \<in> set b. is_ws c)
        \<and> t \<noteq> [] \<and> \<not> is_ws (hd t) \<and> \<not> is_ws (last t)"
    by blast
next
  assume "\<exists>p \<in> set (split_on CHR '','' ts). \<exists>a b. p = a @ t @ b
        \<and> (\<forall>c \<in> set a. is_ws c) \<and> (\<forall>c \<in> set b. is_ws c)
        \<and> t \<noteq> [] \<and> \<not> is_ws (hd t) \<and> \<not> is_ws (last t)"
  then obtain p a b where p: "p \<in> set (split_on CHR '','' ts)" and d: "p = a @ t @ b"
    and w: "\<forall>c \<in> set a. is_ws c" "\<forall>c \<in> set b. is_ws c"
    and t: "t \<noteq> []" "\<not> is_ws (hd t)" "\<not> is_ws (last t)"
    by blast
  from js_trim_unique [OF d w t] have "js_trim p = t" .
  with p t(1) show "t \<in> set (tagArray ts)" by (auto simp: tagArray_def)
qed

lemma tagArray_Nil_iff:
  "tagArray ts = [] \<longleftrightarrow> (\<forall>p \<in> set (split_on CHR '','' ts). \<forall>c \<in> set p. is_ws c)"
  by (auto simp: tagArray_def filter_empty_conv js_trim_empty_iff)

lemma tagArray_Nil [simp]: "tagArray [] = []"
  by (simp add: tagArray_def js_trim_def)

lemma build_filter_tags_Some:
  "q_tags q = Some ts \<Longrightarrow> tagArray ts \<noteq> [] \<Longrightarrow> filter_tags_in (build_filter a q) = Some (tagArray ts)"
  by (auto simp: build_filter_def)

lemma build_filter_tags_None:
  "q_tags q = Some ts \<Longrightarrow> tagArray ts = [] \<Longrightarrow> build_filter a q = build_filter a (q\<lparr>q_tags := None\<rparr>)"
  by (simp add: build_filter_def)

lemma get_notes_cong:
  "build_filter a q = build_filter a q' \<Longrightarrow> q_page q = q_page q' \<Longrightarrow> q_limit q = q_limit q' \<Longrightarrow>
   get_notes d a q store = get_notes d a q' store"
  by (simp add: get_notes_def getNotesSchema_def Let_def)

lemma matches_tags_iff:
  assumes "q_tags q = Some ts" and "tagArray ts \<noteq> []"
  shows "matches d (build_filter a q) n \<longleftrightarrow>
           matches d (build_filter a (q\<lparr>q_tags := None\<rparr>)) n
           \<and> set (tags n) \<inter> set (tagArray ts) \<noteq> {}"
proof -
  from assms(2) have "ts \<noteq> []" by auto
  with assms show ?thesis by (auto simp: matches_def build_filter_def)
qed

lemma filter_tags_split:
  assumes "q_tags q = Some ts" and "tagArray ts \<noteq> []"
  shows "filter (matches d (build_filter a q)) store =
         filter (matches d (build_filter a (q\<lparr>q_tags := None\<rparr>)))
           (filter (\<lambda>n. set (tags n) \<inter> set (tagArray ts) \<noteq> {}) store)"
  by (induction store) (simp_all add: matches_tags_iff [OF assms])

lemma get_notes_tags_sub:
  assumes "q_tags q = Some ts" and "tagArray ts \<noteq> []"
  shows "get_notes d a q store =
         get_notes d a (q\<lparr>q_tags := None\<rparr>)
           (filter (\<lambda>n. set (tags n) \<inter> set (tagArray ts) \<noteq> {}) store)"
proof -
  have s: "getNotesSchema (q\<lparr>q_tags := None\<rparr>) = getNotesSchema q"
    by (rule getNotesSchema_cong) simp_all
  have f: "filter_author (build_filter a (q\<lparr>q_tags := None\<rparr>)) = filter_author (build_filter a q)"
    by (simp add: build_filter_def)
  have e: "filter (\<lambda>x. set (tags x) \<inter> set (tagArray ts) \<noteq> {}
                    \<and> matches d (build_filter a (q\<lparr>q_tags := None\<rparr>)) x) store =
           filter (matches d (build_filter a q)) store"
    by (rule filter_cong) (auto simp: matches_tags_iff [OF assms])
  show ?thesis
    by (simp add: get_notes_def find_notes_def countDocuments_def s f e Let_def
        split: option.splits)
qed

text \<open>
  C6. When the \<open>tags\<close> parameter is present, it is split at the commas (no piece has a
  comma, and the pieces joined by commas are the parameter), every piece is trimmed and
  the empty ones are dropped: the tags asked for are the pieces without the white space
  around them, for the pieces that are not all white space, in their order. If tags are
  left, a note matches the filter if and only if it matches the filter of the same query
  without \<open>tags\<close> and one of its tags is among them; the listing is the listing of the same
  query without \<open>tags\<close> over the notes that have one of them, and on the first page of ten
  it holds the latest ten of these. If none is left, the filter and the reply are those
  of the same query without \<open>tags\<close>.
\<close>

theorem tag_filter_any_of:
  "q_tags q = Some ts \<longrightarrow>
     (\<forall>p \<in> set (split_on CHR '','' ts). CHR '','' \<notin> set p)
     \<and> join_with CHR '','' (split_on CHR '','' ts) = ts
     \<and> tagArray ts = filter (\<lambda>t. t \<noteq> []) (map js_trim (split_on CHR '','' ts))
     \<and> (t \<in> set (tagArray ts) \<longleftrightarrow>
          (\<exists>p \<in> set (split_on CHR '','' ts). \<exists>a b. p = a @ t @ b
             \<and> (\<forall>c \<in> set a. is_ws c) \<and> (\<forall>c \<in> set b. is_ws c)
             \<and> t \<noteq> [] \<and> \<not> is_ws (hd t) \<and> \<not> is_ws (last t)))
     \<and> (tagArray ts = [] \<longleftrightarrow> (\<forall>p \<in> set (split_on CHR '','' ts). \<forall>c \<in> set p. is_ws c))
     \<and> (tagArray ts \<noteq> [] \<longrightarrow>
          (matches d (build_filter a q) n \<longleftrightarrow>
             matches d (build_filter a (q\<lparr>q_tags := None\<rparr>)) n
             \<and> set (tags n) \<inter> set (tagArray ts) \<noteq> {})
          \<and> get_notes d a q store =
              get_notes d a (q\<lparr>q_tags := None\<rparr>)
                (filter (\<lambda>n. set (tags n) \<inter> set (tagArray ts) \<noteq> {}) store)
          \<and> (ObjectId_isValid d a \<and> q_page q = None \<and> q_limit q = None \<longrightarrow>
               (\<exists>pg. get_notes d a q store =
                  NotesReply 200
                    (map view (take 10 (sort_createdAt_desc
                       (filter (\<lambda>n. matches d (build_filter a (q\<lparr>q_tags := None\<rparr>)) n
                                   \<and> set (tags n) \<inter> set (tagArray ts) \<noteq> {}) store))))
                    pg
                \<and> totalNotes pg =
                    length (filter (\<lambda>n. matches d (build_filter a (q\<lparr>q_tags := None\<rparr>)) n
                                   \<and> set (tags n) \<inter> set (tagArray ts) \<noteq> {}) store))))
     \<and> (tagArray ts = [] \<longrightarrow>
          build_filter a q = build_filter a (q\<lparr>q_tags := None\<rparr>)
          \<and> get_notes d a q store = get_notes d a (q\<lparr>q_tags := None\<rparr>) store)"
proof
  assume ts: "q_tags q = Some ts"
  have s1: "\<forall>p \<in> set (split_on CHR '','' ts). CHR '','' \<notin> set p"
    using split_on_pieces by blast
  have s2: "join_with CHR '','' (split_on CHR '','' ts) = ts"
    by (rule join_split_on)
  have s3: "tagArray ts = filter (\<lambda>t. t \<noteq> []) (map js_trim (split_on CHR '','' ts))"
    by (simp add: tagArray_def)
  note s4 = mem_tagArray_iff [of t ts]
  note s5 = tagArray_Nil_iff [of ts]
  have s6: "tagArray ts \<noteq> [] \<longrightarrow>
          (matches d (build_filter a q) n \<longleftrightarrow>
             matches d (build_filter a (q\<lparr>q_tags := None\<rparr>)) n
             \<and> set (tags n) \<inter> set (tagArray ts) \<noteq> {})
          \<and> get_notes d a q store =
              get_notes d a (q\<lparr>q_tags := None\<rparr>)
                (filter (\<lambda>n. set (tags n) \<inter> set (tagArray ts) \<noteq> {}) store)
          \<and> (ObjectId_isValid d a \<and> q_page q = None \<and> q_limit q = None \<longrightarrow>
               (\<exists>pg. get_notes d a q store =
                  NotesReply 200
                    (map view (take 10 (sort_createdAt_desc
                       (filter (\<lambda>n. matches d (build_filter a (q\<lparr>q_tags := None\<rparr>)) n
                                   \<and> set (tags n) \<inter> set (tagArray ts) \<noteq> {}) store))))
                    pg
                \<and> totalNotes pg =
                    length (filter (\<lambda>n. matches d (build_filter a (q\<lparr>q_tags := None\<rparr>)) n
                                   \<and> set (tags n) \<inter> set (tagArray ts) \<noteq> {}) store)))"
  proof (intro impI conjI)
    assume ne: "tagArray ts \<noteq> []"
    show "matches d (build_filter a q) n \<longleftrightarrow>
             matches d (build_filter a (q\<lparr>q_tags := None\<rparr>)) n
             \<and> set (tags n) \<inter> set (tagArray ts) \<noteq> {}"
      using ts ne by (rule matches_tags_iff)
    show "get_notes d a q store =
              get_notes d a (q\<lparr>q_tags := None\<rparr>)
                (filter (\<lambda>n. set (tags n) \<inter> set (tagArray ts) \<noteq> {}) store)"
      using ts ne by (rule get_notes_tags_sub)
    assume h: "ObjectId_isValid d a \<and> q_page q = None \<and> q_limit q = None"
    have e: "filter (matches d (build_filter a q)) store =
        filter (\<lambda>n. matches d (build_filter a (q\<lparr>q_tags := None\<rparr>)) n
                                   \<and> set (tags n) \<inter> set (tagArray ts) \<noteq> {}) store"
      by (rule filter_cong) (simp_all add: matches_tags_iff [OF ts ne])
    from h get_notes_first_page [of d a q store]
    show "\<exists>pg. get_notes d a q store =
                  NotesReply 200
                    (map view (take 10 (sort_createdAt_desc
                       (filter (\<lambda>n. matches d (build_filter a (q\<lparr>q_tags := None\<rparr>)) n
                                   \<and> set (tags n) \<inter> set (tagArray ts) \<noteq> {}) store))))
                    pg
                \<and> totalNotes pg =
                    length (filter (\<lambda>n. matches d (build_filter a (q\<lparr>q_tags := None\<rparr>)) n
                                   \<and> set (tags n) \<inter> set (tagArray ts) \<noteq> {}) store)"
      unfolding e by blast
  qed
  have s7: "tagArray ts = [] \<longrightarrow>
          build_filter a q = build_filter a (q\<lparr>q_tags := None\<rparr>)
          \<and> get_notes d a q store = get_notes d a (q\<lparr>q_tags := None\<rparr>) store"
  proof
    assume e: "tagArray ts = []"
    have bf: "build_filter a q = build_filter a (q\<lparr>q_tags := None\<rparr>)"
      using ts e by (rule build_filter_tags_None)
    then have "get_notes d a q store = get_notes d a (q\<lparr>q_tags := None\<rparr>) store"
      by (rule get_notes_cong) simp_all
    with bf show "build_filter a q = build_filter a (q\<lparr>q_tags := None\<rparr>)
          \<and> get_notes d a q store = get_notes d a (q\<lparr>q_tags := None\<rparr>) store" by simp
  qed
  from s1 s2 s3 s4 s5 s6 s7 show "(\<forall>p \<in> set (split_on CHR '','' ts). CHR '','' \<notin> set p)
     \<and> join_with CHR '','' (split_on CHR '','' ts) = ts
     \<and> tagArray ts = filter (\<lambda>t. t \<noteq> []) (map js_trim (split_on CHR '','' ts))
     \<and> (t \<in> set (tagArray ts) \<longleftrightarrow>
          (\<exists>p \<in> set (split_on CHR '','' ts). \<exists>a b. p = a @ t @ b
             \<and> (\<forall>c \<in> set a. is_ws c) \<and> (\<forall>c \<in> set b. is_ws c)
             \<and> t \<noteq> [] \<and> \<not> is_ws (hd t) \<and> \<not> is_ws (last t)))
     \<and> (tagArray ts = [] \<longleftrightarrow> (\<forall>p \<in> set (split_on CHR '','' ts). \<forall>c \<in> set p. is_ws c))
     \<and> (tagArray ts \<noteq> [] \<longrightarrow>
          (matches d (build_filter a q) n \<longleftrightarrow>
             matches d (build_filter a (q\<lparr>q_tags := None\<rparr>)) n
             \<and> set (tags n) \<inter> set (tagArray ts) \<noteq> {})
          \<and> get_notes d a q store =
              get_notes d a (q\<lparr>q_tags := None\<rparr>)
                (filter (\<lambda>n. set (tags n) \<inter> set (tagArray ts) \<noteq> {}) store)
          \<and> (ObjectId_isValid d a \<and> q_page q = None \<and> q_limit q = None \<longrightarrow>
               (\<exists>pg. get_notes d a q store =
                  NotesReply 200
                    (map view (take 10 (sort_createdAt_desc
                       (filter (\<lambda>n. matches d (build_filter a (q\<lparr>q_tags := None\<rparr>)) n
                                   \<and> set (tags n) \<inter> set (tagArray ts) \<noteq> {}) store))))
                    pg
                \<and> totalNotes pg =
                    length (filter (\<lambda>n. matches d (build_filter a (q\<lparr>q_tags := None\<rparr>)) n
                                   \<and> set (tags n) \<inter> set (tagArray ts) \<noteq> {}) store))))
     \<and> (tagArray ts = [] \<longrightarrow>
          build_filter a q = build_filter a (q\<lparr>q_tags := None\<rparr>)
          \<and> get_notes d a q store = get_notes d a (q\<lparr>q_tags := None\<rparr>) store)"
    by blast
qed

theorem tag_filter_any_of_witness:
  "(\<exists>pg. get_notes driver0 alice (query0\<lparr>q_tags := Some '' work, ,urgent ,,''\<rparr>)
            [note1, note2, note4] = NotesReply 200 [view note4, view note2] pg
         \<and> totalNotes pg = 2)
   \<and> matches driver0 (build_filter alice query0) note1
   \<and> \<not> matches driver0 (build_filter alice (query0\<lparr>q_tags := Some '' work, ,urgent ,,''\<rparr>)) note1
   \<and> matches driver0 (build_filter alice (query0\<lparr>q_tags := Some '' work, ,urgent ,,''\<rparr>)) note4
   \<and> build_filter alice (query0\<lparr>q_tags := Some '' , ,''\<rparr>) = build_filter alice query0"
proof -
  let ?ts = "'' work, ,urgent ,,''"
  let ?q = "query0\<lparr>q_tags := Some ?ts\<rparr>"
  have t1: "tagArray ?ts = [''work'', ''urgent'']"
    by (simp add: tagArray_def js_trim_def is_ws_def)
  have t2: "tagArray '' , ,'' = []"
    by (simp add: tagArray_def js_trim_def is_ws_def)
  have q: "query0\<lparr>q_tags := Some x, q_tags := None\<rparr> = query0" for x
    by (simp add: query0_def)
  have h: "q_tags (query0\<lparr>q_tags := Some x\<rparr>) = Some x" for x
    by simp
  have pl: "q_page ?q = None \<and> q_limit ?q = None" by (simp add: query0_def)
  have m1: "matches driver0 (build_filter alice query0) note1"
    and m2: "matches driver0 (build_filter alice query0) note2"
    and m4: "matches driver0 (build_filter alice query0) note4"
    by (simp_all add: matches_def build_filter_def query0_def note1_def note2_def note4_def)
  have i1: "set (tags note1) \<inter> set [''work'', ''urgent''] = {}"
    and i2: "set (tags note2) \<inter> set [''work'', ''urgent''] \<noteq> {}"
    and i4: "set (tags note4) \<inter> set [''work'', ''urgent''] \<noteq> {}"
    by (simp_all add: note1_def note2_def note4_def)
  have f: "filter (\<lambda>n. matches driver0 (build_filter alice query0) n
                      \<and> set (tags n) \<inter> set [''work'', ''urgent''] \<noteq> {}) [note1, note2, note4]
           = [note2, note4]"
    using m1 m2 m4 i1 i2 i4 by simp
  have s: "sort_createdAt_desc [note2, note4] = [note4, note2]"
    by (simp add: sort_createdAt_desc_def note2_def note4_def)
  note th = tag_filter_any_of [of ?q ?ts _ driver0 alice _ "[note1, note2, note4]", THEN mp, OF h]
  have ne: "tagArray ?ts \<noteq> []" by (simp add: t1)
  from th [of "[]" note1] ne
  have a1: "matches driver0 (build_filter alice ?q) note1 \<longleftrightarrow>
      matches driver0 (build_filter alice (?q\<lparr>q_tags := None\<rparr>)) note1
      \<and> set (tags note1) \<inter> set (tagArray ?ts) \<noteq> {}"
    by blast
  from th [of "[]" note4] ne
  have a4: "matches driver0 (build_filter alice ?q) note4 \<longleftrightarrow>
      matches driver0 (build_filter alice (?q\<lparr>q_tags := None\<rparr>)) note4
      \<and> set (tags note4) \<inter> set (tagArray ?ts) \<noteq> {}"
    by blast
  from th [of "[]" note1] ne valid_alice pl
  have g: "\<exists>pg. get_notes driver0 alice ?q [note1, note2, note4] =
                  NotesReply 200
                    (map view (take 10 (sort_createdAt_desc
                       (filter (\<lambda>n. matches driver0 (build_filter alice (?q\<lparr>q_tags := None\<rparr>)) n
                                   \<and> set (tags n) \<inter> set (tagArray ?ts) \<noteq> {})
                          [note1, note2, note4]))))
                    pg
                \<and> totalNotes pg =
                    length (filter (\<lambda>n. matches driver0 (build_filter alice (?q\<lparr>q_tags := None\<rparr>)) n
                                   \<and> set (tags n) \<inter> set (tagArray ?ts) \<noteq> {})
                              [note1, note2, note4])"
    by blast
  have w1: "\<exists>pg. get_notes driver0 alice ?q [note1, note2, note4] =
                NotesReply 200 [view note4, view note2] pg \<and> totalNotes pg = 2"
    using g unfolding t1 q f s by auto
  have w2: "\<not> matches driver0 (build_filter alice ?q) note1"
    using a1 unfolding t1 q using i1 by simp
  have w3: "matches driver0 (build_filter alice ?q) note4"
    using a4 unfolding t1 q using i4 m4 by simp
  from tag_filter_any_of [of "query0\<lparr>q_tags := Some '' , ,''\<rparr>" "'' , ,''" "[]" driver0 alice note1 "[]",
      THEN mp, OF h]
  have "tagArray '' , ,'' = [] \<longrightarrow>
          build_filter alice (query0\<lparr>q_tags := Some '' , ,''\<rparr>) =
            build_filter alice (query0\<lparr>q_tags := Some '' , ,'', q_tags := None\<rparr>)"
    by blast
  then have w4: "build_filter alice (query0\<lparr>q_tags := Some '' , ,''\<rparr>) = build_filter alice query0"
    unfolding t2 q by simp
  from w1 m1 w2 w3 w4 show ?thesis by blast
qed

section \<open>Pagination\<close>

lemma neg_div_ceiling:
  assumes "1 \<le> (l::int)"
  shows "- (- a div l) = (a + l - 1) div l"
proof -
  define q where "q = (a + l - 1) div l"
  define r where "r = (a + l - 1) mod l"
  have r: "0 \<le> r" "r < l" using assms by (simp_all add: r_def)
  have "a + l - 1 = l * q + r" by (simp add: q_def r_def)
  then have "- a = l * (- q) + (l - 1 - r)" by (simp add: algebra_simps)
  moreover have "0 \<le> l - 1 - r" "l - 1 - r < l" using r by simp_all
  ultimately have "- a div l = - q" by (rule int_div_pos_eq)
  then show ?thesis by (simp add: q_def)
qed

lemma ceiling_div_pos:
  assumes "1 \<le> (l::int)"
  shows "\<lceil>real n / real_of_int l\<rceil> = (int n + l - 1) div l"
proof -
  have "\<lceil>real n / real_of_int l\<rceil> = \<lceil>real_of_int (int n) / real_of_int l\<rceil>" by simp
  also have "\<dots> = - (- int n div l)" by (rule ceiling_divide_eq_div)
  also have "\<dots> = (int n + l - 1) div l" using assms by (rule neg_div_ceiling)
  finally show ?thesis .
qed


text \<open>
  C5, as the code has it. Take a listing whose page \<open>p\<close> and limit \<open>L\<close> are integers that the
  schema admits (\<open>1 \<le> p\<close>, \<open>1 \<le> L \<le> 100\<close>), with \<open>p\<close>, \<open>(p - 1) * L\<close> and the number \<open>N\<close> of matching
  notes below \<open>2^53\<close> (so that the numbers of the code hold them exactly), by an
  authenticated id that casts to an ObjectId. The reply holds the matching notes in the
  order of the sort without the first \<open>(p - 1) * L\<close>, at most \<open>L\<close> of them, and its pagination
  has \<open>totalPages = ceil(N / L)\<close>, which is \<open>(N + L - 1) div L\<close>, \<open>hasNext = (p < totalPages)\<close> and
  \<open>hasPrev = (p > 1)\<close>. When \<open>N = 0\<close>, \<open>totalPages\<close> is 0 and \<open>hasNext\<close> is false, and \<open>hasPrev\<close>
  is still \<open>p > 1\<close>.
\<close>

theorem listing_pagination:
  assumes "page = (case q_page q of None \<Rightarrow> 1 | Some p \<Rightarrow> p)"
    and "limit = (case q_limit q of None \<Rightarrow> 10 | Some l \<Rightarrow> l)"
    and "1 \<le> page" and "1 \<le> limit" and "limit \<le> 100"
    and "page < 2 ^ 53" and "(page - 1) * limit < 2 ^ 53"
    and "m = filter (matches d (build_filter a q)) store" and "int (length m) < 2 ^ 53"
    and "ObjectId_isValid d a"
  shows "\<exists>pg. get_notes d a q store =
            NotesReply 200
              (map view (take (nat limit) (drop (nat ((page - 1) * limit)) (sort_createdAt_desc m)))) pg
          \<and> currentPage pg = page \<and> totalNotes pg = length m
          \<and> totalPages pg = \<lceil>real (length m) / real_of_int limit\<rceil>
          \<and> totalPages pg = (int (length m) + limit - 1) div limit
          \<and> hasNext pg = (page < totalPages pg)
          \<and> hasPrev pg = (1 < page)
          \<and> (length m = 0 \<longrightarrow> totalPages pg = 0 \<and> \<not> hasNext pg \<and> hasPrev pg = (1 < page))"
proof -
  define pg where "pg = \<lparr>currentPage = page, totalPages = \<lceil>real (length m) / real_of_int limit\<rceil>,
            totalNotes = length m,
            hasNext = (page < \<lceil>real (length m) / real_of_int limit\<rceil>), hasPrev = (1 < page)\<rparr>"
  have s: "getNotesSchema q = None"
    using assms(1-5) by (simp add: getNotesSchema_None_iff)
  have g: "get_notes d a q store =
            NotesReply 200
              (map view (take (nat limit) (drop (nat ((page - 1) * limit)) (sort_createdAt_desc m)))) pg"
    using get_notes_valid [OF assms(10) s, of store] assms(1,2,8)
    by (simp add: Let_def pg_def)
  have c: "totalPages pg = (int (length m) + limit - 1) div limit"
    using ceiling_div_pos [OF assms(4), of "length m"] by (simp add: pg_def)
  have z: "length m = 0 \<longrightarrow> totalPages pg = 0 \<and> \<not> hasNext pg \<and> hasPrev pg = (1 < page)"
    using assms(3) by (simp add: pg_def)
  have f: "currentPage pg = page \<and> totalNotes pg = length m
          \<and> totalPages pg = \<lceil>real (length m) / real_of_int limit\<rceil>
          \<and> hasNext pg = (page < totalPages pg) \<and> hasPrev pg = (1 < page)"
    by (simp add: pg_def)
  from g c z f show ?thesis by blast
qed

theorem listing_pagination_witness:
  "\<exists>pg. get_notes driver0 alice (query0\<lparr>q_page := Some 2, q_limit := Some 1\<rparr>) [note1, note3, note2] =
            NotesReply 200 [view note2] pg
        \<and> totalPages pg = 2 \<and> totalNotes pg = 2 \<and> \<not> hasNext pg \<and> hasPrev pg"
proof -
  have m: "[note1, note2] = filter (matches driver0 (build_filter alice (query0\<lparr>q_page := Some 2, q_limit := Some 1\<rparr>))) [note1, note3, note2]"
    by (simp add: matches_def build_filter_def query0_def note1_def note2_def note3_def alice_def bob_def)
  have s: "sort_createdAt_desc [note1, note2] = [note1, note2]"
    by (simp add: sort_createdAt_desc_def note1_def note2_def)
  from listing_pagination [of 2 "query0\<lparr>q_page := Some 2, q_limit := Some 1\<rparr>" 1 "[note1, note2]"
      driver0 alice "[note1, note3, note2]", OF _ _ _ _ _ _ _ m _ valid_alice]
  show ?thesis by (auto simp: query0_def s)
qed

text \<open>
  On page 2 of a listing that matches nothing, \<open>hasPrev\<close> is true.
\<close>

theorem listing_pagination_hasPrev_empty:
  "get_notes driver0 alice (query0\<lparr>q_page := Some 2\<rparr>) [] =
     NotesReply 200 []
       \<lparr>currentPage = 2, totalPages = 0, totalNotes = 0, hasNext = False, hasPrev = True\<rparr>"
proof -
  have s: "getNotesSchema (query0\<lparr>q_page := Some 2\<rparr>) = None"
    by (simp add: getNotesSchema_def query0_def)
  show ?thesis
    unfolding get_notes_valid [OF valid_alice s]
    by (simp add: query0_def sort_createdAt_desc_def)
qed

section \<open>The order of the listing\<close>







section \<open>Updating and deleting\<close>

lemma update_first_no_match: "\<forall>x \<in> set xs. \<not> P x \<Longrightarrow> update_first P f xs = xs"
  by (induction xs) auto

lemma remove_first_no_match: "\<forall>x \<in> set xs. \<not> P x \<Longrightarrow> remove_first P xs = xs"
  by (induction xs) auto

lemma find_no_match: "\<forall>x \<in> set xs. \<not> P x \<Longrightarrow> find P xs = None"
  by (induction xs) auto

lemma update_first_keeps: "n \<in> set xs \<Longrightarrow> \<not> P n \<Longrightarrow> n \<in> set (update_first P f xs)"
  by (induction xs) auto

lemma remove_first_keeps: "n \<in> set xs \<Longrightarrow> \<not> P n \<Longrightarrow> n \<in> set (remove_first P xs)"
  by (induction xs) auto

text \<open>The reply to an update or a delete that matches no document does not depend on the
  collection.\<close>

lemma put_note_no_match:
  assumes "\<forall>n \<in> set s. \<not> id_and_author i a n"
  shows "put_note d now a i u s =
     (case updateNoteSchema u of
        Some p \<Rightarrow> SchemaErrorReply 400 p
      | None \<Rightarrow>
         if \<not> ObjectId_isValid d i then
           ErrorReply 400 ''Bad Request'' (Text ''Invalid note ID format'')
         else if Object_keys_length u = 0 then
           ErrorReply 400 ''Bad Request'' (Text ''No updates provided'')
         else if \<not> ObjectId_isValid d a then
           ErrorReply 500 ''Internal Server Error'' (Text ''Failed to update note'')
         else (case cast_update d (filter_update_tags u) of
                 None \<Rightarrow> ErrorReply 404 ''Not Found'' (Text ''Note not found'')
               | Some (ValidationError errs) \<Rightarrow>
                   ErrorReply 400 ''Validation Error'' (ValidationMessage errs)
               | Some (CastError p) \<Rightarrow>
                   ErrorReply 500 ''Internal Server Error'' (Text ''Failed to update note'')),
      s)"
  using find_no_match [OF assms] update_first_no_match [OF assms]
  by (simp add: put_note_def findOneAndUpdate_def split: option.splits store_error.splits)

lemma delete_note_no_match:
  assumes "\<forall>n \<in> set s. \<not> id_and_author i a n"
  shows "delete_note d a i s =
     (if \<not> ObjectId_isValid d i then ErrorReply 400 ''Bad Request'' (Text ''Invalid note ID format'')
      else if \<not> ObjectId_isValid d a then
        ErrorReply 500 ''Internal Server Error'' (Text ''Failed to delete note'')
      else ErrorReply 404 ''Not Found'' (Text ''Note not found''),
      s)"
  using find_no_match [OF assms] remove_first_no_match [OF assms]
  by (simp add: delete_note_def findOneAndDelete_def)

lemma find_match: "\<exists>n \<in> set s. P n \<Longrightarrow> \<exists>n. find P s = Some n"
  by (induction s) auto

lemma delete_note_match:
  assumes "ObjectId_isValid d i" and "ObjectId_isValid d a" and "\<exists>n \<in> set s. id_and_author i a n"
  shows "delete_note d a i s =
     (MessageReply 200 ''Note deleted successfully'', remove_first (id_and_author i a) s)"
proof -
  from find_match [OF assms(3)] obtain n where "find (id_and_author i a) s = Some n" by blast
  with assms(1,2) show ?thesis by (simp add: delete_note_def findOneAndDelete_def)
qed

lemma put_note_match:
  assumes "ObjectId_isValid d i" and "ObjectId_isValid d a" and "\<exists>n \<in> set s. id_and_author i a n"
    and "updateNoteSchema u = None" and "0 < Object_keys_length u"
    and "cast_update d (filter_update_tags u) = None"
  shows "\<exists>n. fst (put_note d now a i u s) =
           NoteReply 200 (Some ''Note updated successfully'') (view n)"
proof -
  from find_match [OF assms(3)] obtain n where "find (id_and_author i a) s = Some n" by blast
  with assms(1,2,4,5,6) have "fst (put_note d now a i u s) =
      NoteReply 200 (Some ''Note updated successfully'')
        (view (apply_update now (filter_update_tags u) n))"
    by (simp add: put_note_def findOneAndUpdate_def)
  then show ?thesis by blast
qed

text \<open>
  C2, as the code has it. Take an id that no note of one collection has, and that in
  another collection only notes of other accounts have, the ids in the store and the
  authenticated id being ObjectIds. An update gets the same reply in both, a delete gets
  the same reply in both, and both collections stay as they are. The delete is answered
  with 404 "Note not found". So is the update whose body the route schema admits, that is
  not empty, whose further properties are inert, and that passes casting and validation.
  (An update that fails one of the checks before the store is asked is answered with the
  same 400 or 500 in both collections.) The store is asked once, for the document with
  this id and this author: in a collection that has a note with this id and this author,
  the same delete is answered with 200 and takes the note away, and the same update with
  200 and the note.
\<close>

theorem update_delete_merged:
  "(\<forall>n \<in> set s1. note_id n \<noteq> i) \<and> (\<exists>n \<in> set s2. note_id n = i)
   \<and> (\<forall>n \<in> set s2. note_id n = i \<longrightarrow> author n \<noteq> a)
   \<and> (\<forall>n \<in> set s2. ObjectId_isValid d (note_id n)) \<and> ObjectId_isValid d a \<longrightarrow>
     fst (put_note d now a i u s1) = fst (put_note d now a i u s2)
     \<and> snd (put_note d now a i u s1) = s1 \<and> snd (put_note d now a i u s2) = s2
     \<and> delete_note d a i s1 = (ErrorReply 404 ''Not Found'' (Text ''Note not found''), s1)
     \<and> delete_note d a i s2 = (ErrorReply 404 ''Not Found'' (Text ''Note not found''), s2)
     \<and> (updateNoteSchema u = None \<and> 0 < Object_keys_length u
         \<and> (\<forall>k \<in> set (ub_other u). inert_key k)
         \<and> cast_update d (filter_update_tags u) = None \<longrightarrow>
          fst (put_note d now a i u s1) = ErrorReply 404 ''Not Found'' (Text ''Note not found'')
          \<and> fst (put_note d now a i u s2) = ErrorReply 404 ''Not Found'' (Text ''Note not found'')
          \<and> ((\<exists>n \<in> set s3. note_id n = i \<and> author n = a) \<longrightarrow>
               (\<exists>n. fst (put_note d now a i u s3) =
                  NoteReply 200 (Some ''Note updated successfully'') (view n))))
     \<and> ((\<exists>n \<in> set s3. note_id n = i \<and> author n = a) \<longrightarrow>
          delete_note d a i s3 =
            (MessageReply 200 ''Note deleted successfully'',
             remove_first (\<lambda>n. note_id n = i \<and> author n = a) s3))"
proof (intro impI, elim conjE)
  assume absent: "\<forall>n \<in> set s1. note_id n \<noteq> i"
    and present: "\<exists>n \<in> set s2. note_id n = i"
    and other: "\<forall>n \<in> set s2. note_id n = i \<longrightarrow> author n \<noteq> a"
    and ids: "\<forall>n \<in> set s2. ObjectId_isValid d (note_id n)"
    and a: "ObjectId_isValid d a"
  from present ids have i: "ObjectId_isValid d i" by blast
  from absent have n1: "\<forall>n \<in> set s1. \<not> id_and_author i a n"
    by (simp add: id_and_author_def)
  from other have n2: "\<forall>n \<in> set s2. \<not> id_and_author i a n"
    by (simp add: id_and_author_def)
  have p1: "fst (put_note d now a i u s1) = fst (put_note d now a i u s2)"
    by (simp add: put_note_no_match [OF n1] put_note_no_match [OF n2])
  have p2: "snd (put_note d now a i u s1) = s1 \<and> snd (put_note d now a i u s2) = s2"
    by (simp add: put_note_no_match [OF n1] put_note_no_match [OF n2])
  have d1: "delete_note d a i s1 = (ErrorReply 404 ''Not Found'' (Text ''Note not found''), s1)"
    using i a by (simp add: delete_note_no_match [OF n1])
  have d2: "delete_note d a i s2 = (ErrorReply 404 ''Not Found'' (Text ''Note not found''), s2)"
    using i a by (simp add: delete_note_no_match [OF n2])
  have ia: "id_and_author i a = (\<lambda>n. note_id n = i \<and> author n = a)"
    by (auto simp: id_and_author_def)
  have p3: "updateNoteSchema u = None \<and> 0 < Object_keys_length u
         \<and> (\<forall>k \<in> set (ub_other u). inert_key k)
         \<and> cast_update d (filter_update_tags u) = None \<longrightarrow>
          fst (put_note d now a i u s1) = ErrorReply 404 ''Not Found'' (Text ''Note not found'')
          \<and> fst (put_note d now a i u s2) = ErrorReply 404 ''Not Found'' (Text ''Note not found'')
          \<and> ((\<exists>n \<in> set s3. note_id n = i \<and> author n = a) \<longrightarrow>
               (\<exists>n. fst (put_note d now a i u s3) =
                  NoteReply 200 (Some ''Note updated successfully'') (view n)))"
    using i a put_note_match [of d i a s3 u now]
    by (simp add: put_note_no_match [OF n1] put_note_no_match [OF n2] ia)
  have d3: "(\<exists>n \<in> set s3. note_id n = i \<and> author n = a) \<longrightarrow>
          delete_note d a i s3 =
            (MessageReply 200 ''Note deleted successfully'',
             remove_first (\<lambda>n. note_id n = i \<and> author n = a) s3)"
    using i a delete_note_match [of d i a s3] by (simp add: ia)
  from p1 p2 d1 d2 p3 d3 show "fst (put_note d now a i u s1) = fst (put_note d now a i u s2)
     \<and> snd (put_note d now a i u s1) = s1 \<and> snd (put_note d now a i u s2) = s2
     \<and> delete_note d a i s1 = (ErrorReply 404 ''Not Found'' (Text ''Note not found''), s1)
     \<and> delete_note d a i s2 = (ErrorReply 404 ''Not Found'' (Text ''Note not found''), s2)
     \<and> (updateNoteSchema u = None \<and> 0 < Object_keys_length u
         \<and> (\<forall>k \<in> set (ub_other u). inert_key k)
         \<and> cast_update d (filter_update_tags u) = None \<longrightarrow>
          fst (put_note d now a i u s1) = ErrorReply 404 ''Not Found'' (Text ''Note not found'')
          \<and> fst (put_note d now a i u s2) = ErrorReply 404 ''Not Found'' (Text ''Note not found'')
          \<and> ((\<exists>n \<in> set s3. note_id n = i \<and> author n = a) \<longrightarrow>
               (\<exists>n. fst (put_note d now a i u s3) =
                  NoteReply 200 (Some ''Note updated successfully'') (view n))))
     \<and> ((\<exists>n \<in> set s3. note_id n = i \<and> author n = a) \<longrightarrow>
          delete_note d a i s3 =
            (MessageReply 200 ''Note deleted successfully'',
             remove_first (\<lambda>n. note_id n = i \<and> author n = a) s3))"
    by blast
qed

lemma hex24_id1: "hex24 id1"
  by (simp add: hex24_def id1_def)

theorem update_delete_merged_witness:
  "fst (put_note driver0 5000 bob id1 (update0\<lparr>ub_title := Some ''Hacked Update''\<rparr>) []) =
     ErrorReply 404 ''Not Found'' (Text ''Note not found'')
   \<and> fst (put_note driver0 5000 bob id1 (update0\<lparr>ub_title := Some ''Hacked Update''\<rparr>) [note1]) =
     ErrorReply 404 ''Not Found'' (Text ''Note not found'')
   \<and> snd (put_note driver0 5000 bob id1 (update0\<lparr>ub_title := Some ''Hacked Update''\<rparr>) [note1]) =
     [note1]
   \<and> delete_note driver0 bob id1 [note1] =
     (ErrorReply 404 ''Not Found'' (Text ''Note not found''), [note1])
   \<and> delete_note driver0 bob id1 [note1\<lparr>author := bob\<rparr>, note3] =
     (MessageReply 200 ''Note deleted successfully'', [note3])"
proof -
  have c: "cast_update driver0 (filter_update_tags (update0\<lparr>ub_title := Some ''Hacked Update''\<rparr>)) = None"
    by (simp add: cast_update_def filter_update_tags_def update0_def update_validators_def
        validate_title_def js_trim_def is_ws_def)
  have k: "0 < Object_keys_length (update0\<lparr>ub_title := Some ''Hacked Update''\<rparr>)"
    by (simp add: Object_keys_length_def update0_def)
  have sc: "updateNoteSchema (update0\<lparr>ub_title := Some ''Hacked Update''\<rparr>) = None"
    by (simp add: updateNoteSchema_def update0_def)
  have o: "\<forall>k \<in> set (ub_other (update0\<lparr>ub_title := Some ''Hacked Update''\<rparr>)). inert_key k"
    by (simp add: update0_def)
  have h: "(\<forall>n \<in> set []. note_id n \<noteq> id1) \<and> (\<exists>n \<in> set [note1]. note_id n = id1)
   \<and> (\<forall>n \<in> set [note1]. note_id n = id1 \<longrightarrow> author n \<noteq> bob)
   \<and> (\<forall>n \<in> set [note1]. ObjectId_isValid driver0 (note_id n)) \<and> ObjectId_isValid driver0 bob"
    using hex24_id1 hex24_bob
    by (simp add: note1_def driver0_def alice_def bob_def)
  have own: "\<exists>n \<in> set [note1\<lparr>author := bob\<rparr>, note3]. note_id n = id1 \<and> author n = bob"
    by (simp add: note1_def)
  have r: "remove_first (\<lambda>n. note_id n = id1 \<and> author n = bob) [note1\<lparr>author := bob\<rparr>, note3] =
      [note3]"
    by (simp add: note1_def)
  note m = update_delete_merged [of "[]" id1 "[note1]" bob driver0 5000
      "update0\<lparr>ub_title := Some ''Hacked Update''\<rparr>" "[note1\<lparr>author := bob\<rparr>, note3]",
      THEN mp, OF h]
  have idn: "note_id note1 = id1" by (simp add: note1_def)
  from m c k sc o own idn show ?thesis unfolding r by simp
qed

text \<open>
  An update with an empty body is answered with 400 "No updates provided", both for an id
  that does not exist and for the id of a note of another account.
\<close>

theorem update_empty_body_not_404:
  "put_note driver0 5000 bob id1 update0 [] =
     (ErrorReply 400 ''Bad Request'' (Text ''No updates provided''), [])
   \<and> put_note driver0 5000 bob id1 update0 [note1] =
     (ErrorReply 400 ''Bad Request'' (Text ''No updates provided''), [note1])
   \<and> author note1 \<noteq> bob \<and> note_id note1 = id1"
  using hex24_id1
  by (simp add: put_note_def updateNoteSchema_def driver0_def update0_def
      Object_keys_length_def note1_def alice_def bob_def)

text \<open>
  C4. A note of one account is still in the collection, with every field as it was, after
  GET, PUT with any body, or DELETE on its id by another account; and when no other
  document has its id, the whole collection is as it was.
\<close>

theorem foreign_request_frame:
  "n \<in> set store \<and> author n \<noteq> a
   \<and> req \<in> {GET (note_id n), PUT (note_id n) u, DELETE (note_id n)} \<longrightarrow>
     n \<in> set (snd (noteRoutes d new_id now a req store))
     \<and> ((\<forall>m \<in> set store. note_id m = note_id n \<longrightarrow> m = n) \<longrightarrow>
          snd (noteRoutes d new_id now a req store) = store)"
proof (intro impI, elim conjE)
  assume n: "n \<in> set store" and o: "author n \<noteq> a"
    and r: "req \<in> {GET (note_id n), PUT (note_id n) u, DELETE (note_id n)}"
  have nm: "\<not> id_and_author (note_id n) a n" using o by (simp add: id_and_author_def)
  have keep_put: "n \<in> set (snd (put_note d now a (note_id n) u store))"
    using n update_first_keeps [of n store "id_and_author (note_id n) a", OF n nm]
    by (auto simp: put_note_def findOneAndUpdate_def split: option.splits store_error.splits)
  have keep_del: "n \<in> set (snd (delete_note d a (note_id n) store))"
    using n remove_first_keeps [of n store "id_and_author (note_id n) a", OF n nm]
    by (auto simp: delete_note_def findOneAndDelete_def split: option.splits)
  have same: "snd (put_note d now a (note_id n) u store) = store
      \<and> snd (delete_note d a (note_id n) store) = store"
    if u: "\<forall>m \<in> set store. note_id m = note_id n \<longrightarrow> m = n"
  proof -
    from u o have "\<forall>m \<in> set store. \<not> id_and_author (note_id n) a m"
      by (auto simp: id_and_author_def)
    then show ?thesis
      by (simp add: put_note_no_match delete_note_no_match)
  qed
  from r consider "req = GET (note_id n)" | "req = PUT (note_id n) u" | "req = DELETE (note_id n)"
    by blast
  then show "n \<in> set (snd (noteRoutes d new_id now a req store))
     \<and> ((\<forall>m \<in> set store. note_id m = note_id n \<longrightarrow> m = n) \<longrightarrow>
          snd (noteRoutes d new_id now a req store) = store)"
  proof cases
    case 1
    with n show ?thesis by simp
  next
    case 2
    with keep_put same show ?thesis by simp
  next
    case 3
    with keep_del same show ?thesis by simp
  qed
qed

theorem foreign_request_frame_witness:
  "note1 \<in> set (snd (noteRoutes driver0 id3 5000 bob
       (PUT id1 (update0\<lparr>ub_title := Some ''Hacked Update'', ub_author := Some bob\<rparr>)) [note3, note1]))
   \<and> snd (noteRoutes driver0 id3 5000 bob (DELETE id1) [note3, note1]) = [note3, note1]"
proof -
  have a: "author note1 \<noteq> bob" by (simp add: note1_def alice_def bob_def)
  have i: "note_id note1 = id1" by (simp add: note1_def)
  have u: "\<forall>m \<in> set [note3, note1]. note_id m = note_id note1 \<longrightarrow> m = note1"
    by (simp add: note1_def note3_def id1_def id3_def)
  from foreign_request_frame [of note1 "[note3, note1]" bob
      "PUT id1 (update0\<lparr>ub_title := Some ''Hacked Update'', ub_author := Some bob\<rparr>)"
      "update0\<lparr>ub_title := Some ''Hacked Update'', ub_author := Some bob\<rparr>" driver0 id3 5000]
    foreign_request_frame [of note1 "[note3, note1]" bob "DELETE id1" update0 driver0 id3 5000]
    a i u
  show ?thesis by simp
qed

text \<open>
  C3 asks that no update changes the author of a note. POST takes \<open>title\<close>, \<open>content\<close> and
  \<open>tags\<close> out of the body and sets the author itself; PUT hands the whole body to
  \<open>findOneAndUpdate\<close>. A body with an \<open>author\<close> property, sent by the owner of the note, makes
  the note the note of that other account.
\<close>

theorem update_reassigns_author:
  "put_note driver0 5000 alice id1 (update0\<lparr>ub_author := Some bob\<rparr>) [note1] =
     (NoteReply 200 (Some ''Note updated successfully'')
        (view (note1\<lparr>author := bob, updatedAt := 5000\<rparr>)),
      [note1\<lparr>author := bob, updatedAt := 5000\<rparr>])
   \<and> author note1 = alice \<and> alice \<noteq> bob"
  using hex24_id1 hex24_alice hex24_bob
  by (simp add: put_note_def updateNoteSchema_def findOneAndUpdate_def cast_update_def
      filter_update_tags_def update_validators_def apply_update_def id_and_author_def
      Object_keys_length_def driver0_def update0_def note1_def alice_def bob_def)

text \<open>
  The create half of C3 holds: a note that POST creates has the authenticated id as its
  author whatever the body says.
\<close>

lemma post_note_author:
  "post_note d new_id now a body store = (r, store') \<Longrightarrow>
     store' = store \<or> (\<exists>n. store' = store @ [n] \<and> author n = a)"
  by (auto simp: post_note_def save_def Let_def
      split: option.splits sum.splits store_error.splits if_splits)

lemma post_note_ignores_body_author:
  "post_note d new_id now a (body\<lparr>cb_author := x\<rparr>) store = post_note d new_id now a body store"
  by (simp add: post_note_def createNoteSchema_def Let_def split: option.splits)

end
